theory Spec2Isabelle
  imports Main "HOL-Library.Word" "HOL-Library.Sublist"
begin

section \<open>JavaScript strings\<close>

text \<open>
  A JavaScript string is a sequence of 16-bit code units. Literals of the scripts are
  written \<open>str ''...''\<close>; the one literal with characters outside ASCII (the fallback
  marker of \<open>includes.js\<close>) is written by its code units.
\<close>

type_synonym code_unit = "16 word"
type_synonym js_string = "code_unit list"

definition str :: "string \<Rightarrow> js_string" where
  "str s = map of_char s"

definition comma :: code_unit where
  "comma = 0x2C"

text \<open>
  \<open>String.prototype.trim\<close> removes WhiteSpace and LineTerminator code points from both
  ends: TAB, LF, VT, FF, CR, SP, NBSP, the Unicode space separators, LS, PS and the BOM.
  All of them are single code units.
\<close>

definition is_white_space :: "code_unit \<Rightarrow> bool" where
  "is_white_space c = (c \<in> set
     [0x09, 0x0A, 0x0B, 0x0C, 0x0D, 0x20, 0xA0, 0x1680,
      0x2000, 0x2001, 0x2002, 0x2003, 0x2004, 0x2005, 0x2006, 0x2007, 0x2008, 0x2009, 0x200A,
      0x2028, 0x2029, 0x202F, 0x205F, 0x3000, 0xFEFF])"

definition trim :: "js_string \<Rightarrow> js_string" where
  "trim s = rev (dropWhile is_white_space (rev (dropWhile is_white_space s)))"

text \<open>
  \<open>s.split(',')\<close>: the pieces between the commas, in order. The empty string gives one
  empty piece, and a trailing comma gives a last empty piece.
\<close>

fun split_comma :: "js_string \<Rightarrow> js_string list" where
  "split_comma [] = [[]]"
| "split_comma (c # cs) =
     (if c = comma then [] # split_comma cs
      else (case split_comma cs of
              [] \<Rightarrow> [[c]]
            | t # ts \<Rightarrow> (c # t) # ts))"

text \<open>Number-to-string conversion of a non-negative integer (as in a template literal).\<close>

definition digit :: "nat \<Rightarrow> code_unit" where
  "digit d = of_nat (48 + d)"

fun number_to_string :: "nat \<Rightarrow> js_string" where
  "number_to_string n =
     (if n < 10 then [digit n] else number_to_string (n div 10) @ [digit (n mod 10)])"

declare number_to_string.simps [simp del]

text \<open>\<open>x || ''\<close> for an attribute value that may be undefined.\<close>

definition or_empty :: "js_string option \<Rightarrow> js_string" where
  "or_empty a = (case a of None \<Rightarrow> [] | Some v \<Rightarrow> (if v = [] then [] else v))"

section \<open>The recipe filter (assets/js/recipe-filter.js)\<close>

subsection \<open>Data\<close>

text \<open>
  A DOM node has an identity and a content. \<open>cloneNode(true)\<close> makes a node with a new
  identity and the same content.
\<close>

record dom_node =
  ident :: nat
  markup :: js_string

text \<open>An element of the page as \<open>collectRecipeData\<close> reads it.\<close>

record card =
  card_node :: dom_node
  recipe_card_class :: bool
  data_category :: "js_string option"
  data_ingredients :: "js_string option"
  data_dietary :: "js_string option"

record recipe =
  element :: dom_node
  category :: js_string
  ingredients :: "js_string list"
  dietary :: "js_string list"

text \<open>
  A JavaScript \<open>Set\<close> of strings, as the list of its elements in insertion order.
\<close>

type_synonym js_set = "js_string list"

definition set_add :: "js_string \<Rightarrow> js_set \<Rightarrow> js_set" where
  "set_add v xs = (if v \<in> set xs then xs else xs @ [v])"

definition set_delete :: "js_string \<Rightarrow> js_set \<Rightarrow> js_set" where
  "set_delete v xs = removeAll v xs"

definition set_has :: "js_set \<Rightarrow> js_string \<Rightarrow> bool" where
  "set_has xs v = (v \<in> set xs)"

definition set_size :: "js_set \<Rightarrow> nat" where
  "set_size xs = length xs"

record active_filters =
  category_filter :: js_set
  dietary_filter :: js_set

text \<open>The target of a change event, as \<open>handleFilterChange\<close> reads it.\<close>

record input =
  input_type :: js_string
  input_name :: js_string
  input_value :: js_string
  checked :: bool

datatype scroll_target = ResultsSection | FilterHeading

datatype js_error = TypeError | Error js_string

text \<open>
  The state: the module's variables \<open>allRecipes\<close> and \<open>activeFilters\<close>, and for every
  element variable the property of the referenced element that the script writes
  (\<open>None\<close> when \<open>getElementById\<close> returned null). \<open>originalRecipeSections\<close> is a NodeList,
  never null: one \<open>style.display\<close> per matched section.
\<close>

record state =
  allRecipes :: "recipe list"
  activeFilters :: active_filters
  recipe_cards :: "card list"
  next_ident :: nat
  filterForm :: "input list option"
  filteredResultsSection :: "js_string option"
  filteredResultsGrid :: "dom_node list option"
  resultCountSpan :: "js_string option"
  resetButton :: bool
  activeFiltersCountSpan :: "js_string option"
  originalRecipeSections :: "js_string list"
  filterHeading :: bool
  change_listener :: bool
  click_listener :: bool
  viewport :: "scroll_target option"
  console :: "js_string list"

text \<open>
  A call either returns or throws; the writes made before a throw stay in the state.
\<close>

datatype completion = Returned state | Thrown js_error state

fun state_of :: "completion \<Rightarrow> state" where
  "state_of (Returned s) = s"
| "state_of (Thrown e s) = s"

fun and_then :: "completion \<Rightarrow> (state \<Rightarrow> completion) \<Rightarrow> completion" where
  "and_then (Returned s) f = f s"
| "and_then (Thrown e s) f = Thrown e s"

subsection \<open>collectRecipeData\<close>

definition parse_tags :: "js_string option \<Rightarrow> js_string list" where
  "parse_tags a = filter (\<lambda>t. trim t \<noteq> []) (split_comma (or_empty a))"

definition selected_cards :: "card list \<Rightarrow> card list" where
  "selected_cards cs = filter (\<lambda>c. recipe_card_class c \<and> data_category c \<noteq> None) cs"

definition cloneNode :: "nat \<Rightarrow> dom_node \<Rightarrow> dom_node" where
  "cloneNode fresh n = n\<lparr>ident := fresh\<rparr>"

definition recipe_of :: "nat \<times> card \<Rightarrow> recipe" where
  "recipe_of p =
     \<lparr>element = cloneNode (fst p) (card_node (snd p)),
      category = or_empty (data_category (snd p)),
      ingredients = parse_tags (data_ingredients (snd p)),
      dietary = parse_tags (data_dietary (snd p))\<rparr>"

definition collectRecipeData :: "state \<Rightarrow> state" where
  "collectRecipeData s =
     (let recipeCards = selected_cards (recipe_cards s);
          recipes = map recipe_of (enumerate (next_ident s) recipeCards)
      in s\<lparr>allRecipes := recipes,
           next_ident := next_ident s + length recipeCards,
           console := console s @
             [str ''Collected '' @ number_to_string (length recipes) @ str '' recipes'']\<rparr>)"

subsection \<open>The filter predicate\<close>

definition categoryMatch :: "active_filters \<Rightarrow> recipe \<Rightarrow> bool" where
  "categoryMatch f r =
     (set_size (category_filter f) = 0 \<or> set_has (category_filter f) (category r))"

definition dietaryMatch :: "active_filters \<Rightarrow> recipe \<Rightarrow> bool" where
  "dietaryMatch f r =
     (set_size (dietary_filter f) = 0 \<or>
      list_all (\<lambda>d. d \<in> set (dietary r)) (dietary_filter f))"

definition recipe_matches :: "active_filters \<Rightarrow> recipe \<Rightarrow> bool" where
  "recipe_matches f r = (categoryMatch f r \<and> dietaryMatch f r)"

definition filteredRecipes :: "state \<Rightarrow> recipe list" where
  "filteredRecipes s = filter (recipe_matches (activeFilters s)) (allRecipes s)"

definition hasActiveFilters :: "state \<Rightarrow> bool" where
  "hasActiveFilters s =
     (set_size (category_filter (activeFilters s)) > 0 \<or>
      set_size (dietary_filter (activeFilters s)) > 0)"

subsection \<open>Display\<close>

definition updateActiveFiltersCount :: "state \<Rightarrow> state" where
  "updateActiveFiltersCount s =
     (let totalActive = set_size (category_filter (activeFilters s)) +
                        set_size (dietary_filter (activeFilters s))
      in case activeFiltersCountSpan s of
           None \<Rightarrow> s
         | Some old \<Rightarrow>
             (if totalActive = 0 then s\<lparr>activeFiltersCountSpan := Some []\<rparr>
              else s\<lparr>activeFiltersCountSpan :=
                       Some (number_to_string totalActive @ str '' filter(s) active'')\<rparr>))"

text \<open>The text that \<open>updateActiveFiltersCount\<close> writes, by the filter sets.\<close>

definition count_label :: "active_filters \<Rightarrow> js_string" where
  "count_label f =
     (if set_size (category_filter f) + set_size (dietary_filter f) = 0 then []
      else number_to_string (set_size (category_filter f) + set_size (dietary_filter f)) @
           str '' filter(s) active'')"

definition hideFilteredResults :: "state \<Rightarrow> completion" where
  "hideFilteredResults s =
     (case filteredResultsSection s of
        None \<Rightarrow> Thrown TypeError s
      | Some old \<Rightarrow>
          Returned (s\<lparr>filteredResultsSection := Some (str ''none''),
                      originalRecipeSections :=
                        map (\<lambda>d. str ''block'') (originalRecipeSections s)\<rparr>))"

text \<open>
  \<open>parent.appendChild(n)\<close> moves the node \<open>n\<close> itself: it is taken out of the place it
  has and becomes the last child.
\<close>

definition appendChild :: "dom_node list \<Rightarrow> dom_node \<Rightarrow> dom_node list" where
  "appendChild children n = filter (\<lambda>c. ident c \<noteq> ident n) children @ [n]"

definition displayFilteredResults :: "recipe list \<Rightarrow> state \<Rightarrow> completion" where
  "displayFilteredResults fr s =
     (let s1 = s\<lparr>originalRecipeSections :=
                   map (\<lambda>d. str ''none'') (originalRecipeSections s)\<rparr>
      in case filteredResultsGrid s1 of
           None \<Rightarrow> Thrown TypeError s1
         | Some old_children \<Rightarrow>
             (let s2 = s1\<lparr>filteredResultsGrid :=
                           Some (foldl appendChild [] (map element fr))\<rparr>
              in case resultCountSpan s2 of
                   None \<Rightarrow> Thrown TypeError s2
                 | Some old_text \<Rightarrow>
                     (let s3 = s2\<lparr>resultCountSpan := Some (number_to_string (length fr))\<rparr>
                      in case filteredResultsSection s3 of
                           None \<Rightarrow> Thrown TypeError s3
                         | Some old_display \<Rightarrow>
                             Returned (s3\<lparr>filteredResultsSection := Some (str ''block''),
                                         viewport := Some ResultsSection\<rparr>))))"

definition applyFilters :: "state \<Rightarrow> completion" where
  "applyFilters s =
     (if \<not> hasActiveFilters s then hideFilteredResults s
      else displayFilteredResults (filteredRecipes s) s)"

subsection \<open>Event handlers\<close>

text \<open>
  \<open>activeFilters[filterType]\<close>: a Set for the two property names the object has; for any
  other name the lookup gives no Set, and calling \<open>add\<close> or \<open>delete\<close> on it throws.
\<close>

definition filter_property :: "js_string \<Rightarrow> active_filters \<Rightarrow> js_set option" where
  "filter_property name f =
     (if name = str ''category'' then Some (category_filter f)
      else if name = str ''dietary'' then Some (dietary_filter f)
      else None)"

definition with_filter_property :: "js_string \<Rightarrow> js_set \<Rightarrow> active_filters \<Rightarrow> active_filters" where
  "with_filter_property name xs f =
     (if name = str ''category'' then f\<lparr>category_filter := xs\<rparr>
      else if name = str ''dietary'' then f\<lparr>dietary_filter := xs\<rparr>
      else f)"

definition handleFilterChange :: "input \<Rightarrow> state \<Rightarrow> completion" where
  "handleFilterChange i s =
     (if input_type i \<noteq> str ''checkbox'' then Returned s
      else case filter_property (input_name i) (activeFilters s) of
             None \<Rightarrow> Thrown TypeError s
           | Some xs \<Rightarrow>
               (let xs' = (if checked i then set_add (input_value i) xs
                           else set_delete (input_value i) xs);
                    s1 = s\<lparr>activeFilters :=
                             with_filter_property (input_name i) xs' (activeFilters s)\<rparr>
                in and_then (applyFilters s1) (\<lambda>s2. Returned (updateActiveFiltersCount s2))))"

definition uncheck :: "input \<Rightarrow> input" where
  "uncheck i = (if input_type i = str ''checkbox'' then i\<lparr>checked := False\<rparr> else i)"

definition resetFilters :: "state \<Rightarrow> completion" where
  "resetFilters s =
     (let s1 = s\<lparr>activeFilters := \<lparr>category_filter = [], dietary_filter = []\<rparr>\<rparr>
      in case filterForm s1 of
           None \<Rightarrow> Thrown TypeError s1
         | Some inputs \<Rightarrow>
             (let s2 = s1\<lparr>filterForm := Some (map uncheck inputs)\<rparr>
              in and_then (hideFilteredResults s2)
                   (\<lambda>s3. let s4 = updateActiveFiltersCount s3
                         in Returned (if filterHeading s4
                                      then s4\<lparr>viewport := Some FilterHeading\<rparr> else s4))))"

subsection \<open>Set-up\<close>

definition setupEventListeners :: "state \<Rightarrow> state" where
  "setupEventListeners s =
     s\<lparr>change_listener := (filterForm s \<noteq> None), click_listener := resetButton s\<rparr>"

text \<open>The function \<open>setup\<close> of the script, after its element look-ups.\<close>

definition setup_filter :: "state \<Rightarrow> state" where
  "setup_filter s = updateActiveFiltersCount (setupEventListeners (collectRecipeData s))"

text \<open>The events of the page reach the handlers that were registered.\<close>

definition change_event :: "input \<Rightarrow> state \<Rightarrow> completion" where
  "change_event i s = (if change_listener s then handleFilterChange i s else Returned s)"

definition click_reset :: "state \<Rightarrow> completion" where
  "click_reset s = (if click_listener s then resetFilters s else Returned s)"

text \<open>The claim C4 in the words of the specification: every token trimmed, empty tokens dropped.\<close>

definition spec_dietary :: "js_string option \<Rightarrow> js_string list" where
  "spec_dietary a =
     (case a of None \<Rightarrow> []
      | Some v \<Rightarrow> filter (\<lambda>t. t \<noteq> []) (map trim (split_comma v)))"

text \<open>
  The claim C5 in the words of the specification: the children of the grid are fresh copies
  of the snapshots, that is, they have the snapshots' content, in order, and none of them is
  a stored snapshot node itself.
\<close>

definition spec_fresh_copies :: "dom_node list \<Rightarrow> dom_node list \<Rightarrow> bool" where
  "spec_fresh_copies children snapshots =
     (map markup children = map markup snapshots \<and>
      list_all (\<lambda>c. ident c \<notin> set (map ident snapshots)) children)"

text \<open>The Idle state of the engine: no filter active, filtered view hidden, original sections shown.\<close>

definition idle :: "state \<Rightarrow> bool" where
  "idle s =
     (\<not> hasActiveFilters s \<and>
      filteredResultsSection s = Some (str ''none'') \<and>
      list_all (\<lambda>d. d = str ''block'') (originalRecipeSections s))"

text \<open>\<open>toggle(filterType, value, checked)\<close>: a change event of a checkbox.\<close>

definition toggle :: "js_string \<Rightarrow> js_string \<Rightarrow> bool \<Rightarrow> state \<Rightarrow> completion" where
  "toggle filterType v c s =
     handleFilterChange
       \<lparr>input_type = str ''checkbox'', input_name = filterType, input_value = v, checked = c\<rparr> s"

text \<open>What \<open>handleFilterChange\<close> does after it has changed the set.\<close>

definition recompute_and_count :: "state \<Rightarrow> completion" where
  "recompute_and_count s = and_then (applyFilters s) (\<lambda>s2. Returned (updateActiveFiltersCount s2))"

subsection \<open>An example page\<close>

definition card_A :: card where
  "card_A = \<lparr>card_node = \<lparr>ident = 1, markup = str ''<article>A</article>''\<rparr>,
     recipe_card_class = True,
     data_category = Some (str ''main-dish''),
     data_ingredients = Some (str ''doenjang,tofu''),
     data_dietary = Some (str ''vegan,halal'')\<rparr>"

definition card_B :: card where
  "card_B = \<lparr>card_node = \<lparr>ident = 2, markup = str ''<article>B</article>''\<rparr>,
     recipe_card_class = True,
     data_category = Some (str ''rice''),
     data_ingredients = Some (str ''rice,egg''),
     data_dietary = Some (str ''gluten-free'')\<rparr>"

text \<open>The recipes that \<open>collectRecipeData\<close> captures from the two cards.\<close>

definition recipe_A :: recipe where
  "recipe_A = \<lparr>element = \<lparr>ident = 3, markup = str ''<article>A</article>''\<rparr>,
     category = str ''main-dish'',
     ingredients = [str ''doenjang'', str ''tofu''],
     dietary = [str ''vegan'', str ''halal'']\<rparr>"

definition recipe_B :: recipe where
  "recipe_B = \<lparr>element = \<lparr>ident = 4, markup = str ''<article>B</article>''\<rparr>,
     category = str ''rice'',
     ingredients = [str ''rice'', str ''egg''],
     dietary = [str ''gluten-free'']\<rparr>"

definition card_spaced :: card where
  "card_spaced = \<lparr>card_node = \<lparr>ident = 1, markup = str ''<article>S</article>''\<rparr>,
     recipe_card_class = True,
     data_category = Some (str ''side-dish''),
     data_ingredients = None,
     data_dietary = Some (str ''vegan, halal'')\<rparr>"

definition example_page :: state where
  "example_page =
     \<lparr>allRecipes = [],
      activeFilters = \<lparr>category_filter = [], dietary_filter = []\<rparr>,
      recipe_cards = [card_A, card_B],
      next_ident = 3,
      filterForm = Some [\<lparr>input_type = str ''checkbox'', input_name = str ''category'',
                          input_value = str ''main-dish'', checked = False\<rparr>,
                         \<lparr>input_type = str ''checkbox'', input_name = str ''dietary'',
                          input_value = str ''halal'', checked = False\<rparr>],
      filteredResultsSection = Some (str ''none''),
      filteredResultsGrid = Some [],
      resultCountSpan = Some (str ''0''),
      resetButton = True,
      activeFiltersCountSpan = Some [],
      originalRecipeSections = [[], []],
      filterHeading = True,
      change_listener = False,
      click_listener = False,
      viewport = None,
      console = []\<rparr>"

definition example_ready :: state where
  "example_ready = setup_filter example_page"

definition example_gluten_free :: state where
  "example_gluten_free =
     example_ready\<lparr>activeFilters :=
       \<lparr>category_filter = [], dietary_filter = [str ''gluten-free'']\<rparr>\<rparr>"

definition example_filtered :: state where
  "example_filtered = state_of (toggle (str ''category'') (str ''main-dish'') True example_ready)"

definition example_checked :: state where
  "example_checked =
     example_filtered\<lparr>filterForm :=
       Some [\<lparr>input_type = str ''checkbox'', input_name = str ''category'',
               input_value = str ''main-dish'', checked = True\<rparr>,
             \<lparr>input_type = str ''checkbox'', input_name = str ''dietary'',
               input_value = str ''halal'', checked = False\<rparr>]\<rparr>"

definition page_without_grid :: state where
  "page_without_grid = example_page\<lparr>filteredResultsGrid := None\<rparr>"

definition page_without_section :: state where
  "page_without_section = example_page\<lparr>filteredResultsSection := None\<rparr>"

definition page_spaced :: state where
  "page_spaced = example_page\<lparr>recipe_cards := [card_spaced]\<rparr>"

section \<open>The include resolver (assets/js/includes.js)\<close>

subsection \<open>The document\<close>

text \<open>
  The document is a tree. An element has its attributes and its child nodes; \<open>Markup\<close> is
  text, or markup that was spliced in (the handler never looks inside it: its
  \<open>querySelectorAll\<close> runs before any splice). A node is named by its path from the root,
  the list of child positions, so placeholders may lie inside one another.
\<close>

datatype dom = Element "(js_string \<times> js_string) list" "dom list" | Markup js_string

fun getAttribute :: "js_string \<Rightarrow> dom \<Rightarrow> js_string option" where
  "getAttribute name (Element as cs) = map_of as name"
| "getAttribute name (Markup m) = None"

fun subtree_at :: "dom \<Rightarrow> nat list \<Rightarrow> dom option" where
  "subtree_at d [] = Some d"
| "subtree_at (Markup m) (i # p) = None"
| "subtree_at (Element as cs) (i # p) = (if i < length cs then subtree_at (cs ! i) p else None)"

text \<open>
  \<open>target.innerHTML = h\<close>: the children of the target are replaced by the markup \<open>h\<close>,
  and the nodes that were inside the target leave the document. A target that has left the
  document (an element around it was assigned before) can still be assigned to, which
  changes nothing in the document: no element is at its path any more.
\<close>

fun set_innerHTML :: "nat list \<Rightarrow> js_string \<Rightarrow> dom \<Rightarrow> dom" where
  "set_innerHTML [] h (Element as cs) = Element as [Markup h]"
| "set_innerHTML [] h (Markup m) = Markup m"
| "set_innerHTML (i # p) h (Element as cs) =
     (if i < length cs then Element as (cs[i := set_innerHTML p h (cs ! i)]) else Element as cs)"
| "set_innerHTML (i # p) h (Markup m) = Markup m"

text \<open>The elements of the document with their paths, in document order.\<close>

fun elements :: "dom \<Rightarrow> (nat list \<times> dom) list" where
  "elements (Markup m) = []"
| "elements (Element as cs) =
     ([], Element as cs) #
     concat (map (\<lambda>ip. map (\<lambda>pe. (fst ip # fst pe, snd pe)) (snd ip))
               (enumerate 0 (map elements cs)))"

fun all_attributes :: "dom \<Rightarrow> (js_string \<times> js_string) list list" where
  "all_attributes (Markup m) = []"
| "all_attributes (Element as cs) = as # concat (map all_attributes cs)"

fun element_attributes :: "dom \<Rightarrow> (js_string \<times> js_string) list option" where
  "element_attributes (Element as cs) = Some as"
| "element_attributes (Markup m) = None"

definition attributes_at :: "dom \<Rightarrow> nat list \<Rightarrow> (js_string \<times> js_string) list option" where
  "attributes_at d q = (case subtree_at d q of None \<Rightarrow> None | Some t \<Rightarrow> element_attributes t)"

definition attribute_at :: "dom \<Rightarrow> nat list \<Rightarrow> js_string \<Rightarrow> js_string option" where
  "attribute_at d q name = (case subtree_at d q of None \<Rightarrow> None | Some e \<Rightarrow> getAttribute name e)"

subsection \<open>Fetches and the state\<close>

text \<open>
  How a fetch ends: the promise is rejected (a network error), or it gives a response with
  its \<open>ok\<close> flag and its text. A fetch that never ends has no outcome.
\<close>

datatype fetch_outcome = Rejected js_error | Response bool js_string

text \<open>
  The state: the document, the fetches issued (target and URL), what \<open>console.error\<close>
  logged, and the assignments to \<open>innerHTML\<close> made so far (target and markup).
\<close>

record include_state =
  document_tree :: dom
  requests :: "(nat list \<times> js_string) list"
  error_log :: "js_error list"
  assignments :: "(nat list \<times> js_string) list"

definition fallback_marker :: js_string where
  "fallback_marker =
     str ''<!-- include'' @ [0xB97C] @ str '' '' @ [0xBD88, 0xB7EC, 0xC624, 0xC9C0] @ str '' '' @
     [0xBABB, 0xD588, 0xC2B5, 0xB2C8, 0xB2E4] @ str ''. -->''"

subsection \<open>The DOMContentLoaded handler\<close>

definition includeTargets :: "dom \<Rightarrow> (nat list \<times> dom) list" where
  "includeTargets doc =
     filter (\<lambda>p. getAttribute (str ''data-include'') (snd p) \<noteq> None) (elements doc)"

text \<open>The body of the \<open>forEach\<close>: nothing for a path that is falsy, a fetch otherwise.\<close>

definition start_include :: "include_state \<Rightarrow> nat list \<times> dom \<Rightarrow> include_state" where
  "start_include st p =
     (case getAttribute (str ''data-include'') (snd p) of
        None \<Rightarrow> st
      | Some includePath \<Rightarrow>
          (if includePath = [] then st
           else st\<lparr>requests := requests st @ [(fst p, includePath)]\<rparr>))"

text \<open>The fetch that the body of the \<open>forEach\<close> issues for one target, if any.\<close>

definition request_of :: "nat list \<times> dom \<Rightarrow> (nat list \<times> js_string) list" where
  "request_of p =
     (case getAttribute (str ''data-include'') (snd p) of
        None \<Rightarrow> []
      | Some includePath \<Rightarrow> (if includePath = [] then [] else [(fst p, includePath)]))"

definition on_DOMContentLoaded :: "dom \<Rightarrow> include_state" where
  "on_DOMContentLoaded doc =
     foldl start_include
       \<lparr>document_tree = doc, requests = [], error_log = [], assignments = []\<rparr>
       (includeTargets doc)"

definition assign_innerHTML :: "nat list \<Rightarrow> js_string \<Rightarrow> include_state \<Rightarrow> include_state" where
  "assign_innerHTML target h st =
     st\<lparr>document_tree := set_innerHTML target h (document_tree st),
        assignments := assignments st @ [(target, h)]\<rparr>"

text \<open>The \<open>catch\<close> callback.\<close>

definition on_catch :: "nat list \<Rightarrow> js_error \<Rightarrow> include_state \<Rightarrow> include_state" where
  "on_catch target e st =
     assign_innerHTML target fallback_marker (st\<lparr>error_log := error_log st @ [e]\<rparr>)"

text \<open>The promise chain of one fetch, run when the fetch ends.\<close>

definition settle :: "(nat list \<times> js_string) \<times> fetch_outcome \<Rightarrow> include_state \<Rightarrow> include_state" where
  "settle c st =
     (case snd c of
        Rejected e \<Rightarrow> on_catch (fst (fst c)) e st
      | Response ok html \<Rightarrow>
          (if \<not> ok
           then on_catch (fst (fst c))
                  (Error (str ''Failed to load include: '' @ snd (fst c))) st
           else assign_innerHTML (fst (fst c)) html st))"

text \<open>
  A run of the page: the handler, then the fetches that end, in the order \<open>order\<close> in which
  they end, each with the outcome the network \<open>net\<close> gives it.
\<close>

definition run_includes ::
  "((nat list \<times> js_string) \<Rightarrow> fetch_outcome) \<Rightarrow> (nat list \<times> js_string) list \<Rightarrow> dom \<Rightarrow> include_state" where
  "run_includes net order doc =
     fold (\<lambda>r st. settle (r, net r) st) order (on_DOMContentLoaded doc)"

text \<open>The error that ends in the log and the markup a placeholder is assigned, by the outcome.\<close>

definition failed :: "fetch_outcome \<Rightarrow> bool" where
  "failed out = (case out of Rejected e \<Rightarrow> True | Response ok html \<Rightarrow> \<not> ok)"

definition logged_error :: "js_string \<Rightarrow> fetch_outcome \<Rightarrow> js_error" where
  "logged_error includePath out =
     (case out of
        Rejected e \<Rightarrow> e
      | Response ok html \<Rightarrow> Error (str ''Failed to load include: '' @ includePath))"

definition resolved_content :: "fetch_outcome \<Rightarrow> js_string" where
  "resolved_content out =
     (case out of
        Rejected e \<Rightarrow> fallback_marker
      | Response ok html \<Rightarrow> (if ok then html else fallback_marker))"

subsection \<open>Example pages\<close>

text \<open>
  A page one directory below the site root: the body with a header placeholder, a link, a
  placeholder with an empty path, and a footer placeholder.
\<close>

definition nested_page :: dom where
  "nested_page =
     Element [(str ''data-root-path'', str ''..'')]
      [Element [(str ''data-include'', str ''../partials/header.html''),
                (str ''data-root-path'', str ''..'')] [],
       Element [(str ''href'', str ''index.html''),
                (str ''data-root-href'', str ''index.html'')] [Markup (str ''Home'')],
       Element [(str ''data-include'', [])] [Markup (str ''kept'')],
       Element [(str ''data-include'', str ''../partials/footer.html'')] []]"

definition header_fragment :: js_string where
  "header_fragment = str ''<a href=index.html data-root-href=index.html>Home</a>''"

definition example_net :: "(nat list \<times> js_string) \<Rightarrow> fetch_outcome" where
  "example_net r =
     (if snd r = str ''../partials/header.html'' then Response True header_fragment
      else Response False (str ''Not Found''))"

definition failing_net :: "(nat list \<times> js_string) \<Rightarrow> fetch_outcome" where
  "failing_net r = Response False (str ''Not Found'')"

text \<open>The footer fetch ends before the header fetch.\<close>

definition example_order :: "(nat list \<times> js_string) list" where
  "example_order = [([3], str ''../partials/footer.html''), ([0], str ''../partials/header.html'')]"

text \<open>A placeholder with an empty path around a header placeholder.\<close>

definition wrapper_page :: dom where
  "wrapper_page =
     Element []
      [Element [(str ''data-include'', [])]
        [Element [(str ''data-include'', str ''../partials/header.html'')] []]]"

text \<open>A footer placeholder around a header placeholder.\<close>

definition stacked_page :: dom where
  "stacked_page =
     Element []
      [Element [(str ''data-include'', str ''../partials/footer.html'')]
        [Element [(str ''data-include'', str ''../partials/header.html'')] []]]"

section \<open>Properties of the recipe filter\<close>


subsection \<open>Evaluation of the example page\<close>

lemmas str_eval = str_def comma_def trim_def is_white_space_def digit_def

lemma example_ready_eq:
  "example_ready =
     example_page\<lparr>allRecipes := [recipe_A, recipe_B],
       next_ident := 5, change_listener := True, click_listener := True,
       console := [str ''Collected 2 recipes'']\<rparr>"
  by (simp add: example_ready_def setup_filter_def updateActiveFiltersCount_def
      setupEventListeners_def collectRecipeData_def example_page_def selected_cards_def
      card_A_def card_B_def recipe_A_def recipe_B_def recipe_of_def cloneNode_def
      parse_tags_def or_empty_def set_size_def number_to_string.simps str_eval)

lemma example_filtered_eq:
  "example_filtered =
     example_ready\<lparr>activeFilters := \<lparr>category_filter = [str ''main-dish''], dietary_filter = []\<rparr>,
       originalRecipeSections := [str ''none'', str ''none''],
       filteredResultsGrid := Some [element recipe_A],
       resultCountSpan := Some (str ''1''),
       filteredResultsSection := Some (str ''block''),
       viewport := Some ResultsSection,
       activeFiltersCountSpan := Some (str ''1 filter(s) active'')\<rparr>"
  apply (simp add: example_filtered_def toggle_def handleFilterChange_def example_ready_eq)
  apply (simp add: example_page_def filter_property_def with_filter_property_def set_add_def
      applyFilters_def hasActiveFilters_def set_size_def displayFilteredResults_def
      filteredRecipes_def recipe_matches_def categoryMatch_def dietaryMatch_def set_has_def
      appendChild_def updateActiveFiltersCount_def recipe_A_def recipe_B_def
      number_to_string.simps str_eval)
  done

subsection \<open>The filter predicate\<close>


lemma example_filtered_fields:
  "allRecipes example_filtered = [recipe_A, recipe_B]"
  "activeFilters example_filtered =
     \<lparr>category_filter = [str ''main-dish''], dietary_filter = []\<rparr>"
  by (simp_all add: example_filtered_eq example_ready_eq)

lemma example_gluten_free_fields:
  "allRecipes example_gluten_free = [recipe_A, recipe_B]"
  "activeFilters example_gluten_free =
     \<lparr>category_filter = [], dietary_filter = [str ''gluten-free'']\<rparr>"
  "filteredResultsGrid example_gluten_free = Some []"
  "resultCountSpan example_gluten_free = Some (str ''0'')"
  "filteredResultsSection example_gluten_free = Some (str ''none'')"
  "originalRecipeSections example_gluten_free = [[], []]"
  by (simp_all add: example_gluten_free_def example_ready_eq example_page_def)

subsection \<open>Recomputing twice (C9)\<close>

lemma hide_keeps:
  "activeFilters (state_of (hideFilteredResults s)) = activeFilters s"
  "allRecipes (state_of (hideFilteredResults s)) = allRecipes s"
  by (cases "filteredResultsSection s"; simp add: hideFilteredResults_def)+

lemma display_keeps:
  "activeFilters (state_of (displayFilteredResults fr s)) = activeFilters s"
  "allRecipes (state_of (displayFilteredResults fr s)) = allRecipes s"
  by (cases "filteredResultsGrid s"; cases "resultCountSpan s"; cases "filteredResultsSection s";
      simp add: displayFilteredResults_def)+

lemma hide_idem:
  "hideFilteredResults (state_of (hideFilteredResults s)) = hideFilteredResults s"
  by (cases "filteredResultsSection s"; simp add: hideFilteredResults_def)

lemma display_idem:
  "displayFilteredResults fr (state_of (displayFilteredResults fr s)) =
     displayFilteredResults fr s"
  by (cases "filteredResultsGrid s"; cases "resultCountSpan s"; cases "filteredResultsSection s";
      simp add: displayFilteredResults_def)

lemma apply_keeps:
  "activeFilters (state_of (applyFilters s)) = activeFilters s"
  "allRecipes (state_of (applyFilters s)) = allRecipes s"
  by (simp_all add: applyFilters_def hide_keeps display_keeps)

text \<open>
  C9. Running \<open>applyFilters\<close> a second time on the state the first run left, with the
  filter sets unchanged, ends as the first run ended and leaves the very same state: the
  same children of the grid, the same result count, the same \<open>display\<close> of the filtered
  section and of the original sections. This holds also when an anchor element is missing
  and the run throws.
\<close>

theorem C9_recompute_idempotent:
  "applyFilters (state_of (applyFilters s)) = applyFilters s"
proof -
  let ?s' = "state_of (applyFilters s)"
  have same: "hasActiveFilters ?s' = hasActiveFilters s" "filteredRecipes ?s' = filteredRecipes s"
    by (simp_all add: hasActiveFilters_def filteredRecipes_def apply_keeps)
  show ?thesis
  proof (cases "hasActiveFilters s")
    case True
    then have "applyFilters s = displayFilteredResults (filteredRecipes s) s"
      by (simp add: applyFilters_def)
    moreover have "applyFilters ?s' = displayFilteredResults (filteredRecipes s) ?s'"
      using True same by (simp add: applyFilters_def)
    ultimately show ?thesis by (simp add: display_idem)
  next
    case False
    then have "applyFilters s = hideFilteredResults s"
      by (simp add: applyFilters_def)
    moreover have "applyFilters ?s' = hideFilteredResults ?s'"
      using False same by (simp add: applyFilters_def)
    ultimately show ?thesis by (simp add: hide_idem)
  qed
qed

subsection \<open>What the grid shows (C5)\<close>

lemma filter_other_keys: "k \<notin> f ` set xs \<Longrightarrow> filter (\<lambda>c. f c \<noteq> k) xs = xs"
  by (induction xs) auto

lemma foldl_appendChild:
  "distinct (map ident (acc @ ns)) \<Longrightarrow> foldl appendChild acc ns = acc @ ns"
proof (induction ns arbitrary: acc)
  case Nil
  then show ?case by simp
next
  case (Cons n ns)
  have "ident n \<notin> ident ` set acc"
    using Cons.prems by auto
  then have "filter (\<lambda>c. ident c \<noteq> ident n) acc = acc"
    by (rule filter_other_keys)
  then have "appendChild acc n = acc @ [n]"
    by (simp add: appendChild_def)
  moreover have "distinct (map ident ((acc @ [n]) @ ns))"
    using Cons.prems by simp
  ultimately show ?case
    using Cons.IH [of "acc @ [n]"] by simp
qed

lemma collected_idents:
  "map (\<lambda>r. ident (element r)) (allRecipes (collectRecipeData p)) =
     [next_ident p..<next_ident p + length (selected_cards (recipe_cards p))]"
proof -
  have a: "allRecipes (collectRecipeData p) =
      map recipe_of (enumerate (next_ident p) (selected_cards (recipe_cards p)))"
    by (simp add: collectRecipeData_def Let_def)
  have b: "map (\<lambda>r. ident (element r)) (map recipe_of xs) = map fst xs" for xs
    by (induction xs) (simp_all add: recipe_of_def cloneNode_def)
  show ?thesis
    by (simp only: a b map_fst_enumerate)
qed

lemma collected_distinct:
  "distinct (map (\<lambda>r. ident (element r)) (allRecipes (collectRecipeData p)))"
  by (simp add: collected_idents)

lemma matching_elements_distinct:
  assumes "allRecipes s = allRecipes (collectRecipeData p)"
  shows "distinct (map ident (map element (filter P (allRecipes s))))"
proof -
  have "distinct (map (\<lambda>r. ident (element r)) (filter P (allRecipes s)))"
    using collected_distinct [of p] assms by (simp add: distinct_map_filter)
  then show ?thesis by (simp add: comp_def)
qed

lemma display_all_present:
  assumes "filteredResultsGrid s = Some g" "resultCountSpan s = Some t"
    "filteredResultsSection s = Some d"
  shows "displayFilteredResults fr s =
     Returned (s\<lparr>originalRecipeSections := map (\<lambda>d. str ''none'') (originalRecipeSections s),
                 filteredResultsGrid := Some (foldl appendChild [] (map element fr)),
                 resultCountSpan := Some (number_to_string (length fr)),
                 filteredResultsSection := Some (str ''block''),
                 viewport := Some ResultsSection\<rparr>)"
  using assms by (simp add: displayFilteredResults_def)

text \<open>
  C5, amended. For a recompute with at least one active filter, on a page that has the
  grid, the result count and the filtered section, and with the recipes captured by
  \<open>collectRecipeData\<close>: the children of the grid become exactly the stored snapshot
  nodes of the matching recipes (the nodes themselves are moved in, no copy is made), in
  capture order; the result count becomes the number of matches; the filtered section is
  shown and the original sections are hidden.
\<close>

theorem C5_snapshots_moved_into_grid:
  assumes "hasActiveFilters s"
    and "allRecipes s = allRecipes (collectRecipeData p)"
    and "filteredResultsGrid s \<noteq> None"
    and "resultCountSpan s \<noteq> None"
    and "filteredResultsSection s \<noteq> None"
  shows "\<exists>s'. applyFilters s = Returned s' \<and>
     filteredResultsGrid s' =
       Some (map element (filter (recipe_matches (activeFilters s)) (allRecipes s))) \<and>
     resultCountSpan s' =
       Some (number_to_string (length (filter (recipe_matches (activeFilters s)) (allRecipes s)))) \<and>
     filteredResultsSection s' = Some (str ''block'') \<and>
     originalRecipeSections s' = map (\<lambda>d. str ''none'') (originalRecipeSections s)"
proof -
  let ?fr = "filter (recipe_matches (activeFilters s)) (allRecipes s)"
  obtain g t d where present: "filteredResultsGrid s = Some g" "resultCountSpan s = Some t"
      "filteredResultsSection s = Some d"
    using assms(3,4,5) by auto
  have "foldl appendChild [] (map element ?fr) = map element ?fr"
    using foldl_appendChild [of "[]" "map element ?fr"] matching_elements_distinct [OF assms(2)]
    by simp
  moreover have "applyFilters s = displayFilteredResults ?fr s"
    using assms(1) by (simp add: applyFilters_def filteredRecipes_def)
  ultimately show ?thesis
    by (simp add: display_all_present [OF present])
qed

lemma example_ready_collected:
  "allRecipes example_ready = allRecipes (collectRecipeData example_page)"
  by (simp add: example_ready_def setup_filter_def updateActiveFiltersCount_def
      setupEventListeners_def Let_def split: option.splits)

lemma example_gluten_free_matches:
  "filter (recipe_matches (activeFilters example_gluten_free)) (allRecipes example_gluten_free) =
     [recipe_B]"
  by (simp add: example_gluten_free_fields recipe_matches_def categoryMatch_def
      dietaryMatch_def set_size_def set_has_def recipe_A_def recipe_B_def str_def)

theorem C5_snapshots_moved_into_grid_witness:
  "hasActiveFilters example_gluten_free \<and>
   (\<exists>s'. applyFilters example_gluten_free = Returned s' \<and>
      filteredResultsGrid s' = Some [element recipe_B] \<and>
      resultCountSpan s' = Some (str ''1'') \<and>
      filteredResultsSection s' = Some (str ''block'') \<and>
      originalRecipeSections s' = [str ''none'', str ''none''])"
proof -
  have h1: "hasActiveFilters example_gluten_free"
    by (simp add: example_gluten_free_fields hasActiveFilters_def set_size_def)
  have h2: "allRecipes example_gluten_free = allRecipes (collectRecipeData example_page)"
    by (simp add: example_gluten_free_def example_ready_collected)
  have h3: "filteredResultsGrid example_gluten_free \<noteq> None"
    "resultCountSpan example_gluten_free \<noteq> None"
    "filteredResultsSection example_gluten_free \<noteq> None"
    by (simp_all add: example_gluten_free_fields)
  have one: "number_to_string (Suc 0) = str ''1''"
    by (simp add: number_to_string.simps str_eval)
  show ?thesis
    using h1 C5_snapshots_moved_into_grid [OF h1 h2 h3, unfolded example_gluten_free_matches]
    by (simp add: example_gluten_free_fields one)
qed

lemma example_gluten_free_applied:
  "applyFilters example_gluten_free =
     Returned (example_gluten_free\<lparr>
       originalRecipeSections := [str ''none'', str ''none''],
       filteredResultsGrid := Some [element recipe_B],
       resultCountSpan := Some (str ''1''),
       filteredResultsSection := Some (str ''block''),
       viewport := Some ResultsSection\<rparr>)"
proof -
  have "hasActiveFilters example_gluten_free"
    by (simp add: example_gluten_free_fields hasActiveFilters_def set_size_def)
  then have "applyFilters example_gluten_free =
      displayFilteredResults [recipe_B] example_gluten_free"
    by (simp add: applyFilters_def filteredRecipes_def example_gluten_free_matches)
  then show ?thesis
    by (simp add: displayFilteredResults_def example_gluten_free_fields appendChild_def
        number_to_string.simps str_eval)
qed

text \<open>
  C5 as stated fails: after the recompute the child of the grid is the stored snapshot node
  of the matching recipe, not a fresh copy of it.
\<close>

theorem C5_counterexample:
  "filteredResultsGrid (state_of (applyFilters example_gluten_free)) = Some [element recipe_B] \<and>
   element recipe_B \<in> set (map element (allRecipes (state_of (applyFilters example_gluten_free)))) \<and>
   \<not> spec_fresh_copies [element recipe_B]
       (map element (allRecipes (state_of (applyFilters example_gluten_free))))"
  by (simp add: example_gluten_free_applied example_gluten_free_fields spec_fresh_copies_def)


subsection \<open>What a recompute includes (C1)\<close>








subsection \<open>Reset (C7)\<close>

lemma update_count_fields:
  "activeFilters (updateActiveFiltersCount s) = activeFilters s"
  "allRecipes (updateActiveFiltersCount s) = allRecipes s"
  "filterForm (updateActiveFiltersCount s) = filterForm s"
  "filteredResultsSection (updateActiveFiltersCount s) = filteredResultsSection s"
  "filteredResultsGrid (updateActiveFiltersCount s) = filteredResultsGrid s"
  "resultCountSpan (updateActiveFiltersCount s) = resultCountSpan s"
  "originalRecipeSections (updateActiveFiltersCount s) = originalRecipeSections s"
  by (cases "activeFiltersCountSpan s"; simp add: updateActiveFiltersCount_def Let_def)+

lemma update_count_label:
  "activeFiltersCountSpan (updateActiveFiltersCount s) =
     map_option (\<lambda>t. if set_size (category_filter (activeFilters s)) +
                         set_size (dietary_filter (activeFilters s)) = 0 then []
                      else number_to_string (set_size (category_filter (activeFilters s)) +
                                             set_size (dietary_filter (activeFilters s))) @
                           str '' filter(s) active'')
       (activeFiltersCountSpan s)"
  by (cases "activeFiltersCountSpan s"; simp add: updateActiveFiltersCount_def Let_def)

lemma reset_present:
  assumes "filterForm s = Some inputs"
    and "filteredResultsSection s = Some d"
  shows "resetFilters s =
     Returned (let s4 = updateActiveFiltersCount
                 (s\<lparr>activeFilters := \<lparr>category_filter = [], dietary_filter = []\<rparr>,
                    filterForm := Some (map uncheck inputs),
                    filteredResultsSection := Some (str ''none''),
                    originalRecipeSections :=
                      map (\<lambda>d. str ''block'') (originalRecipeSections s)\<rparr>)
               in if filterHeading s4 then s4\<lparr>viewport := Some FilterHeading\<rparr> else s4)"
  using assms by (simp add: resetFilters_def hideFilteredResults_def Let_def)

text \<open>
  On a page that has the filter form and the filtered section, \<open>resetFilters\<close> returns
  and leaves the engine in the Idle state, whatever the state before.
\<close>

lemma reset_yields_idle:
  assumes "filterForm s = Some inputs"
    and "filteredResultsSection s = Some d"
  shows "\<exists>s'. resetFilters s = Returned s' \<and>
     activeFilters s' = \<lparr>category_filter = [], dietary_filter = []\<rparr> \<and>
     filterForm s' = Some (map uncheck inputs) \<and>
     list_all (\<lambda>i. input_type i = str ''checkbox'' \<longrightarrow> \<not> checked i) (map uncheck inputs) \<and>
     filteredResultsSection s' = Some (str ''none'') \<and>
     originalRecipeSections s' = map (\<lambda>d. str ''block'') (originalRecipeSections s) \<and>
     activeFiltersCountSpan s' = map_option (\<lambda>t. []) (activeFiltersCountSpan s) \<and>
     idle s'"
proof -
  define s' where "s' = state_of (resetFilters s)"
  have ret: "resetFilters s = Returned s'"
    by (simp add: s'_def reset_present [OF assms])
  have boxes: "list_all (\<lambda>i. input_type i = str ''checkbox'' \<longrightarrow> \<not> checked i) (map uncheck inputs)"
    by (induction inputs) (simp_all add: uncheck_def)
  have fields: "activeFilters s' = \<lparr>category_filter = [], dietary_filter = []\<rparr>"
    "filterForm s' = Some (map uncheck inputs)"
    "filteredResultsSection s' = Some (str ''none'')"
    "originalRecipeSections s' = map (\<lambda>d. str ''block'') (originalRecipeSections s)"
    by (simp_all add: s'_def reset_present [OF assms] Let_def update_count_fields)
  have label: "activeFiltersCountSpan s' = map_option (\<lambda>t. []) (activeFiltersCountSpan s)"
    by (simp add: s'_def reset_present [OF assms] Let_def update_count_label
        update_count_fields set_size_def)
  have "idle s'"
    by (simp add: idle_def hasActiveFilters_def fields set_size_def list_all_iff)
  with ret boxes fields label show ?thesis
    by blast
qed


lemma example_checked_fields:
  "filterForm example_checked =
     Some [\<lparr>input_type = str ''checkbox'', input_name = str ''category'',
             input_value = str ''main-dish'', checked = True\<rparr>,
           \<lparr>input_type = str ''checkbox'', input_name = str ''dietary'',
             input_value = str ''halal'', checked = False\<rparr>]"
  "filteredResultsSection example_checked = Some (str ''block'')"
  "originalRecipeSections example_checked = [str ''none'', str ''none'']"
  "activeFiltersCountSpan example_checked = Some (str ''1 filter(s) active'')"
  "activeFilters example_checked =
     \<lparr>category_filter = [str ''main-dish''], dietary_filter = []\<rparr>"
  by (simp_all add: example_checked_def example_filtered_eq example_ready_eq example_page_def)

lemma reset_yields_idle_example:
  "filteredResultsSection example_checked = Some (str ''block'') \<and>
   hasActiveFilters example_checked \<and>
   (\<exists>s'. resetFilters example_checked = Returned s' \<and>
      activeFilters s' = \<lparr>category_filter = [], dietary_filter = []\<rparr> \<and>
      filterForm s' =
        Some [\<lparr>input_type = str ''checkbox'', input_name = str ''category'',
                input_value = str ''main-dish'', checked = False\<rparr>,
              \<lparr>input_type = str ''checkbox'', input_name = str ''dietary'',
                input_value = str ''halal'', checked = False\<rparr>] \<and>
      filteredResultsSection s' = Some (str ''none'') \<and>
      originalRecipeSections s' = [str ''block'', str ''block''] \<and>
      activeFiltersCountSpan s' = Some [] \<and>
      idle s')"
proof -
  have active: "hasActiveFilters example_checked"
    by (simp add: hasActiveFilters_def example_checked_fields set_size_def)
  show ?thesis
    using active reset_yields_idle [OF example_checked_fields(1) example_checked_fields(2)]
    by (simp add: example_checked_fields uncheck_def)
qed

lemma page_without_section_ready:
  "setup_filter page_without_section = example_ready\<lparr>filteredResultsSection := None\<rparr>"
  by (simp add: page_without_section_def example_ready_def setup_filter_def
      updateActiveFiltersCount_def setupEventListeners_def collectRecipeData_def Let_def
      example_page_def)

lemma page_without_section_checked:
  "change_event
     \<lparr>input_type = str ''checkbox'', input_name = str ''category'',
      input_value = str ''main-dish'', checked = True\<rparr>
     (setup_filter page_without_section) =
   Thrown TypeError
     (example_ready
        \<lparr>filteredResultsSection := None,
         activeFilters := \<lparr>category_filter = [str ''main-dish''], dietary_filter = []\<rparr>,
         originalRecipeSections := [str ''none'', str ''none''],
         filteredResultsGrid := Some [element recipe_A],
         resultCountSpan := Some (str ''1'')\<rparr>)"
  apply (simp add: page_without_section_ready example_ready_eq)
  apply (simp add: example_page_def change_event_def handleFilterChange_def filter_property_def
      with_filter_property_def set_add_def applyFilters_def hasActiveFilters_def set_size_def
      displayFilteredResults_def filteredRecipes_def recipe_matches_def categoryMatch_def
      dietaryMatch_def set_has_def appendChild_def recipe_A_def recipe_B_def
      number_to_string.simps str_eval Let_def)
  done

text \<open>
  C7 on a page that has the filter form, the grid, the result count and the reset button
  but no filtered section. Checking a category box hides the original sections and fills
  the grid, then throws at the write to the missing section. The click on the reset button
  then clears the sets and the checkboxes and throws in \<open>hideFilteredResults\<close>, before
  the original sections are shown again: they stay hidden, and the engine is not in the
  Idle state.
\<close>

theorem C7_reset_throws_without_section:
  "click_reset (state_of (change_event
       \<lparr>input_type = str ''checkbox'', input_name = str ''category'',
        input_value = str ''main-dish'', checked = True\<rparr>
       (setup_filter page_without_section))) =
   Thrown TypeError
     (example_ready
        \<lparr>filteredResultsSection := None,
         activeFilters := \<lparr>category_filter = [], dietary_filter = []\<rparr>,
         originalRecipeSections := [str ''none'', str ''none''],
         filteredResultsGrid := Some [element recipe_A],
         resultCountSpan := Some (str ''1'')\<rparr>) \<and>
   \<not> idle (state_of (click_reset (state_of (change_event
       \<lparr>input_type = str ''checkbox'', input_name = str ''category'',
        input_value = str ''main-dish'', checked = True\<rparr>
       (setup_filter page_without_section)))))"
  apply (simp add: page_without_section_checked)
  apply (simp add: example_ready_eq example_page_def click_reset_def resetFilters_def
      hideFilteredResults_def uncheck_def idle_def Let_def)
  done

subsection \<open>Toggling on and off (C8)\<close>

lemma update_count_eq:
  "updateActiveFiltersCount s =
     s\<lparr>activeFiltersCountSpan :=
         map_option (\<lambda>t. count_label (activeFilters s)) (activeFiltersCountSpan s)\<rparr>"
  by (cases "activeFiltersCountSpan s"; simp add: updateActiveFiltersCount_def Let_def count_label_def)

lemma with_filter_property_same:
  "filter_property ft f = Some xs \<Longrightarrow> with_filter_property ft xs f = f"
  by (auto simp: filter_property_def with_filter_property_def split: if_splits)

lemma filter_property_with:
  "filter_property ft f = Some xs \<Longrightarrow> filter_property ft (with_filter_property ft ys f) = Some ys"
  by (auto simp: filter_property_def with_filter_property_def split: if_splits)

lemma with_filter_property_twice:
  "with_filter_property ft zs (with_filter_property ft ys f) = with_filter_property ft zs f"
  by (simp add: with_filter_property_def)

lemma delete_after_add: "v \<notin> set xs \<Longrightarrow> set_delete v (set_add v xs) = xs"
  by (simp add: set_delete_def set_add_def)

lemma toggle_eq:
  assumes "filter_property ft (activeFilters s) = Some xs"
  shows "toggle ft v c s =
     recompute_and_count
       (s\<lparr>activeFilters :=
            with_filter_property ft (if c then set_add v xs else set_delete v xs)
              (activeFilters s)\<rparr>)"
  using assms by (simp add: toggle_def handleFilterChange_def recompute_and_count_def)

lemma active_after_add:
  assumes "filter_property ft f = Some xs" "v \<notin> set xs"
  shows "set_size (category_filter (with_filter_property ft (set_add v xs) f)) > 0 \<or>
         set_size (dietary_filter (with_filter_property ft (set_add v xs) f)) > 0"
  using assms
  by (auto simp: filter_property_def with_filter_property_def set_add_def set_size_def
      split: if_splits)

lemma recompute_active:
  assumes "hasActiveFilters s"
    and "filteredResultsGrid s = Some g" "resultCountSpan s = Some t"
    and "filteredResultsSection s = Some d"
  shows "recompute_and_count s =
     Returned (s\<lparr>originalRecipeSections := map (\<lambda>d. str ''none'') (originalRecipeSections s),
                 filteredResultsGrid := Some (foldl appendChild [] (map element (filteredRecipes s))),
                 resultCountSpan := Some (number_to_string (length (filteredRecipes s))),
                 filteredResultsSection := Some (str ''block''),
                 viewport := Some ResultsSection,
                 activeFiltersCountSpan :=
                   map_option (\<lambda>t. count_label (activeFilters s)) (activeFiltersCountSpan s)\<rparr>)"
  using assms
  by (simp add: recompute_and_count_def applyFilters_def displayFilteredResults_def
      update_count_eq)

lemma recompute_idle:
  assumes "\<not> hasActiveFilters s"
    and "filteredResultsSection s = Some d"
  shows "recompute_and_count s =
     Returned (s\<lparr>filteredResultsSection := Some (str ''none''),
                 originalRecipeSections := map (\<lambda>d. str ''block'') (originalRecipeSections s),
                 activeFiltersCountSpan :=
                   map_option (\<lambda>t. count_label (activeFilters s)) (activeFiltersCountSpan s)\<rparr>)"
  using assms
  by (simp add: recompute_and_count_def applyFilters_def hideFilteredResults_def update_count_eq)

text \<open>
  C8, amended. On a page that has the grid, the result count and the filtered section, for
  a filter type that is \<open>category\<close> or \<open>dietary\<close> and a value that is not yet in
  that set: toggling the value on and then off returns the filter sets to what they were,
  and leaves the page as a recompute and count update for these sets leaves it. When a
  filter is active that is the whole state, so a display that was current is restored;
  when none is active the filtered section is hidden, the original sections are shown and
  the label is empty, while the hidden grid and result count keep what the intermediate
  recompute wrote and the viewport stays at the results.
\<close>

theorem C8_toggle_round_trip:
  assumes fp: "filter_property filterType (activeFilters s) = Some xs"
    and fresh: "v \<notin> set xs"
    and hg: "filteredResultsGrid s \<noteq> None"
    and hc: "resultCountSpan s \<noteq> None"
    and hs: "filteredResultsSection s \<noteq> None"
  shows "\<exists>s1 s2 s0.
     toggle filterType v True s = Returned s1 \<and>
     toggle filterType v False s1 = Returned s2 \<and>
     recompute_and_count s = Returned s0 \<and>
     activeFilters s2 = activeFilters s \<and>
     s2 = (if hasActiveFilters s then s0
           else s0\<lparr>filteredResultsGrid := filteredResultsGrid s1,
                   resultCountSpan := resultCountSpan s1,
                   viewport := Some ResultsSection\<rparr>)"
proof -
  obtain g t d where present: "filteredResultsGrid s = Some g" "resultCountSpan s = Some t"
    "filteredResultsSection s = Some d"
    using hg hc hs by auto
  let ?f1 = "with_filter_property filterType (set_add v xs) (activeFilters s)"
  let ?a = "s\<lparr>activeFilters := ?f1\<rparr>"
  have act: "hasActiveFilters ?a"
    using active_after_add [OF fp fresh] by (simp add: hasActiveFilters_def)
  define s1 where "s1 = state_of (toggle filterType v True s)"
  have t1: "toggle filterType v True s = Returned s1"
    unfolding s1_def toggle_eq [OF fp]
    using recompute_active [OF act, of g t d] present by simp
  have s1_eq: "s1 = ?a\<lparr>originalRecipeSections := map (\<lambda>d. str ''none'') (originalRecipeSections s),
                 filteredResultsGrid := Some (foldl appendChild [] (map element (filteredRecipes ?a))),
                 resultCountSpan := Some (number_to_string (length (filteredRecipes ?a))),
                 filteredResultsSection := Some (str ''block''),
                 viewport := Some ResultsSection,
                 activeFiltersCountSpan :=
                   map_option (\<lambda>t. count_label ?f1) (activeFiltersCountSpan s)\<rparr>"
    unfolding s1_def toggle_eq [OF fp]
    using recompute_active [OF act, of g t d] present by simp
  have prop1: "filter_property filterType (activeFilters s1) = Some (set_add v xs)"
    by (simp add: s1_eq filter_property_with [OF fp])
  have restored: "with_filter_property filterType (set_delete v (set_add v xs)) (activeFilters s1) =
      activeFilters s"
    by (simp add: s1_eq with_filter_property_twice delete_after_add [OF fresh]
        with_filter_property_same [OF fp])
  let ?b = "s1\<lparr>activeFilters := activeFilters s\<rparr>"
  have t2: "toggle filterType v False s1 = recompute_and_count ?b"
    using toggle_eq [OF prop1, of v False] restored by simp
  have b_present: "filteredResultsGrid ?b = Some (foldl appendChild [] (map element (filteredRecipes ?a)))"
    "resultCountSpan ?b = Some (number_to_string (length (filteredRecipes ?a)))"
    "filteredResultsSection ?b = Some (str ''block'')"
    by (simp_all add: s1_eq)
  have b_active: "hasActiveFilters ?b = hasActiveFilters s"
    by (simp add: hasActiveFilters_def)
  have b_recipes: "filteredRecipes ?b = filteredRecipes s"
    by (simp add: filteredRecipes_def s1_eq)
  show ?thesis
  proof (cases "hasActiveFilters s")
    case True
    have "recompute_and_count ?b = recompute_and_count s"
      using True b_active
      by (simp add: recompute_active [OF _ b_present] recompute_active [OF True present] b_recipes)
        (simp add: s1_eq comp_def option.map_comp)
    with t1 t2 True show ?thesis
      by (simp add: recompute_active [OF True present])
  next
    case False
    have "recompute_and_count ?b =
        Returned ((state_of (recompute_and_count s))\<lparr>filteredResultsGrid := filteredResultsGrid s1,
                   resultCountSpan := resultCountSpan s1,
                   viewport := Some ResultsSection\<rparr>)"
      using False b_active
      by (simp add: recompute_idle [OF _ b_present(3)] recompute_idle [OF False present(3)])
        (simp add: s1_eq comp_def option.map_comp)
    with t1 t2 False show ?thesis
      by (simp add: recompute_idle [OF False present(3)])
  qed
qed


lemma example_filtered_more:
  "filteredResultsGrid example_filtered = Some [element recipe_A]"
  "resultCountSpan example_filtered = Some (str ''1'')"
  "filteredResultsSection example_filtered = Some (str ''block'')"
  "originalRecipeSections example_filtered = [str ''none'', str ''none'']"
  "activeFiltersCountSpan example_filtered = Some (str ''1 filter(s) active'')"
  "viewport example_filtered = Some ResultsSection"
  by (simp_all add: example_filtered_eq example_ready_eq example_page_def)

lemma example_filtered_active: "hasActiveFilters example_filtered"
  by (simp add: hasActiveFilters_def example_filtered_fields set_size_def)

lemma example_filtered_matches: "filteredRecipes example_filtered = [recipe_A]"
  by (simp add: filteredRecipes_def example_filtered_fields recipe_matches_def
      categoryMatch_def dietaryMatch_def set_size_def set_has_def recipe_A_def recipe_B_def str_def)

lemma example_filtered_current: "recompute_and_count example_filtered = Returned example_filtered"
proof -
  have "recompute_and_count example_filtered =
    Returned (example_filtered\<lparr>originalRecipeSections := [str ''none'', str ''none''],
                 filteredResultsGrid := Some [element recipe_A],
                 resultCountSpan := Some (str ''1''),
                 filteredResultsSection := Some (str ''block''),
                 viewport := Some ResultsSection,
                 activeFiltersCountSpan := Some (str ''1 filter(s) active'')\<rparr>)"
    by (simp add: recompute_active [OF example_filtered_active example_filtered_more(1,2,3)]
        example_filtered_matches example_filtered_more example_filtered_fields appendChild_def
        count_label_def set_size_def number_to_string.simps str_eval)
  also have "\<dots> = Returned example_filtered"
    by (simp add: example_filtered_eq)
  finally show ?thesis .
qed

theorem C8_toggle_round_trip_witness:
  "str ''halal'' \<notin> set (dietary_filter (activeFilters example_filtered)) \<and>
   (\<exists>s1. toggle (str ''dietary'') (str ''halal'') True example_filtered = Returned s1 \<and>
      toggle (str ''dietary'') (str ''halal'') False s1 = Returned example_filtered)"
proof -
  have fp: "filter_property (str ''dietary'') (activeFilters example_filtered) = Some []"
    by (simp add: filter_property_def example_filtered_fields str_def)
  have fresh: "str ''halal'' \<notin> set []"
    by simp
  have present: "filteredResultsGrid example_filtered \<noteq> None"
    "resultCountSpan example_filtered \<noteq> None"
    "filteredResultsSection example_filtered \<noteq> None"
    by (simp_all add: example_filtered_more)
  show ?thesis
    using C8_toggle_round_trip [OF fp fresh present]
    by (auto simp: example_filtered_active example_filtered_current example_filtered_fields)
qed

lemma example_filtered_on_again:
  "toggle (str ''category'') (str ''main-dish'') True example_filtered = Returned example_filtered"
proof -
  have fp: "filter_property (str ''category'') (activeFilters example_filtered) =
      Some [str ''main-dish'']"
    by (simp add: filter_property_def example_filtered_fields)
  have "with_filter_property (str ''category'') (set_add (str ''main-dish'') [str ''main-dish''])
      (activeFilters example_filtered) = activeFilters example_filtered"
    by (simp add: with_filter_property_def set_add_def example_filtered_fields)
  then show ?thesis
    by (simp add: toggle_eq [OF fp] example_filtered_current)
qed

lemma example_filtered_off:
  "toggle (str ''category'') (str ''main-dish'') False example_filtered =
     Returned (example_filtered\<lparr>
       activeFilters := \<lparr>category_filter = [], dietary_filter = []\<rparr>,
       filteredResultsSection := Some (str ''none''),
       originalRecipeSections := [str ''block'', str ''block''],
       activeFiltersCountSpan := Some []\<rparr>)"
proof -
  have fp: "filter_property (str ''category'') (activeFilters example_filtered) =
      Some [str ''main-dish'']"
    by (simp add: filter_property_def example_filtered_fields)
  let ?b = "example_filtered\<lparr>activeFilters := \<lparr>category_filter = [], dietary_filter = []\<rparr>\<rparr>"
  have emptied: "with_filter_property (str ''category'') (set_delete (str ''main-dish'') [str ''main-dish''])
      (activeFilters example_filtered) = \<lparr>category_filter = [], dietary_filter = []\<rparr>"
    by (simp add: with_filter_property_def set_delete_def example_filtered_fields)
  have inactive: "\<not> hasActiveFilters ?b"
    by (simp add: hasActiveFilters_def set_size_def)
  have sec: "filteredResultsSection ?b = Some (str ''block'')"
    by (simp add: example_filtered_more)
  show ?thesis
    using recompute_idle [OF inactive sec]
    by (simp add: toggle_eq [OF fp] emptied example_filtered_more count_label_def set_size_def)
qed

lemma example_ready_on:
  "toggle (str ''dietary'') (str ''halal'') True example_ready =
     Returned (example_ready\<lparr>
       activeFilters := \<lparr>category_filter = [], dietary_filter = [str ''halal'']\<rparr>,
       originalRecipeSections := [str ''none'', str ''none''],
       filteredResultsGrid := Some [element recipe_A],
       resultCountSpan := Some (str ''1''),
       filteredResultsSection := Some (str ''block''),
       viewport := Some ResultsSection,
       activeFiltersCountSpan := Some (str ''1 filter(s) active'')\<rparr>)"
  apply (simp add: toggle_def handleFilterChange_def example_ready_eq)
  apply (simp add: example_page_def filter_property_def with_filter_property_def set_add_def
      applyFilters_def hasActiveFilters_def set_size_def displayFilteredResults_def
      filteredRecipes_def recipe_matches_def categoryMatch_def dietaryMatch_def set_has_def
      appendChild_def updateActiveFiltersCount_def recipe_A_def recipe_B_def
      number_to_string.simps str_eval Let_def)
  done

lemma example_ready_on_off:
  "toggle (str ''dietary'') (str ''halal'') False
     (state_of (toggle (str ''dietary'') (str ''halal'') True example_ready)) =
     Returned (example_ready\<lparr>
       originalRecipeSections := [str ''block'', str ''block''],
       filteredResultsGrid := Some [element recipe_A],
       resultCountSpan := Some (str ''1''),
       filteredResultsSection := Some (str ''none''),
       viewport := Some ResultsSection\<rparr>)"
  apply (simp add: example_ready_on)
  apply (simp add: toggle_def handleFilterChange_def example_ready_eq)
  apply (simp add: example_page_def filter_property_def with_filter_property_def set_delete_def
      applyFilters_def hasActiveFilters_def set_size_def hideFilteredResults_def
      updateActiveFiltersCount_def str_eval Let_def)
  done

lemma example_ready_before:
  "resultCountSpan example_ready = Some (str ''0'')"
  "originalRecipeSections example_ready = [[], []]"
  by (simp_all add: example_ready_eq example_page_def)

text \<open>
  C8 as stated fails for a value that is already in the set: the first toggle adds nothing,
  the second removes the value, and the filtered view that was shown is hidden. And from
  the state without filters, with a new value, the result count and the inline
  \<open>display\<close> of the original sections are not what they were before the two toggles.
\<close>

theorem C8_counterexample:
  "activeFilters (state_of
      (toggle (str ''category'') (str ''main-dish'') False
         (state_of (toggle (str ''category'') (str ''main-dish'') True example_filtered)))) \<noteq>
     activeFilters example_filtered \<and>
   category_filter (activeFilters example_filtered) = [str ''main-dish''] \<and>
   category_filter (activeFilters (state_of
      (toggle (str ''category'') (str ''main-dish'') False
         (state_of (toggle (str ''category'') (str ''main-dish'') True example_filtered))))) = [] \<and>
   filteredResultsSection example_filtered = Some (str ''block'') \<and>
   filteredResultsSection (state_of
      (toggle (str ''category'') (str ''main-dish'') False
         (state_of (toggle (str ''category'') (str ''main-dish'') True example_filtered)))) =
     Some (str ''none'') \<and>
   resultCountSpan example_ready = Some (str ''0'') \<and>
   resultCountSpan (state_of
      (toggle (str ''dietary'') (str ''halal'') False
         (state_of (toggle (str ''dietary'') (str ''halal'') True example_ready)))) =
     Some (str ''1'') \<and>
   originalRecipeSections example_ready = [[], []] \<and>
   originalRecipeSections (state_of
      (toggle (str ''dietary'') (str ''halal'') False
         (state_of (toggle (str ''dietary'') (str ''halal'') True example_ready)))) =
     [str ''block'', str ''block'']"
  by (simp add: example_filtered_on_again example_filtered_off example_filtered_fields
      example_filtered_more example_ready_on_off example_ready_before)


subsection \<open>A missing anchor element (C3)\<close>

lemma page_without_grid_ready:
  "setup_filter page_without_grid = example_ready\<lparr>filteredResultsGrid := None\<rparr>"
  by (simp add: page_without_grid_def example_ready_def setup_filter_def
      updateActiveFiltersCount_def setupEventListeners_def collectRecipeData_def Let_def
      example_page_def)

text \<open>
  C3 on a page that has the filter form but no grid element: checking a category box makes
  \<open>displayFilteredResults\<close> throw a TypeError at the write to the grid. The original
  sections are hidden already; the result count is not written, the filtered section is not
  shown and the count label is not updated.
\<close>

theorem C3_missing_grid_throws:
  "change_event
     \<lparr>input_type = str ''checkbox'', input_name = str ''category'',
      input_value = str ''main-dish'', checked = True\<rparr>
     (setup_filter page_without_grid) =
   Thrown TypeError
     ((setup_filter page_without_grid)
        \<lparr>activeFilters := \<lparr>category_filter = [str ''main-dish''], dietary_filter = []\<rparr>,
         originalRecipeSections := [str ''none'', str ''none''],
         filteredResultsSection := Some (str ''none''),
         resultCountSpan := Some (str ''0''),
         activeFiltersCountSpan := Some []\<rparr>)"
  apply (simp add: page_without_grid_ready example_ready_eq)
  apply (simp add: example_page_def change_event_def handleFilterChange_def filter_property_def
      with_filter_property_def set_add_def applyFilters_def hasActiveFilters_def set_size_def
      displayFilteredResults_def)
  done

subsection \<open>Parsing the dietary attribute (C4)\<close>

lemma split_comma_chars: "t \<in> set (split_comma s) \<Longrightarrow> set t \<subseteq> set s"
proof (induction s arbitrary: t)
  case Nil
  then show ?case by simp
next
  case (Cons c cs)
  show ?case
  proof (cases "c = comma")
    case True
    with Cons show ?thesis by auto
  next
    case False
    show ?thesis
    proof (cases "split_comma cs")
      case Nil
      with False Cons.prems show ?thesis by simp
    next
      case (Cons u us)
      with False Cons.prems have "t = c # u \<or> t \<in> set us" by simp
      moreover have "set u \<subseteq> set cs" using Cons.IH [of u] Cons by simp
      moreover have "t \<in> set us \<Longrightarrow> set t \<subseteq> set cs" using Cons.IH [of t] Cons by simp
      ultimately show ?thesis by auto
    qed
  qed
qed

lemma dropWhile_none: "\<forall>c\<in>set t. \<not> P c \<Longrightarrow> dropWhile P t = t"
  by (cases t) auto

lemma trim_no_ws: "\<forall>c\<in>set t. \<not> is_white_space c \<Longrightarrow> trim t = t"
  by (simp add: trim_def dropWhile_none)

lemma trim_filter:
  "map trim (filter (\<lambda>t. trim t \<noteq> []) xs) = filter (\<lambda>t. t \<noteq> []) (map trim xs)"
  by (induction xs) auto

lemma trim_Nil: "trim [] = []"
  by (simp add: trim_def)

lemma parse_tags_spec: "map trim (parse_tags a) = spec_dietary a"
  by (cases a) (auto simp: parse_tags_def spec_dietary_def or_empty_def trim_filter trim_Nil)

lemma parse_tags_no_ws:
  assumes "\<forall>c\<in>set (or_empty a). \<not> is_white_space c"
  shows "parse_tags a = spec_dietary a"
proof -
  have "\<forall>t\<in>set (parse_tags a). trim t = t"
    using assms split_comma_chars [of _ "or_empty a"]
    by (auto simp: parse_tags_def intro!: trim_no_ws)
  then have "map trim (parse_tags a) = parse_tags a"
    by (simp add: map_idI)
  then show ?thesis by (simp add: parse_tags_spec)
qed

lemma parse_tags_absent: "parse_tags None = []"
  by (simp add: parse_tags_def or_empty_def trim_Nil)

text \<open>
  C4, amended. \<open>collectRecipeData\<close> makes one recipe of every selected card. The stored
  dietary field is the list of the comma-separated pieces of the attribute whose trimmed
  form is not empty; the pieces are kept as they are, not trimmed. Trimming the stored
  tokens gives the list of the specification, and where the attribute has no white space
  the stored list is that list. An absent attribute gives the empty list.
\<close>

theorem C4_dietary_tokens_kept_untrimmed:
  "allRecipes (collectRecipeData s) =
     map recipe_of (enumerate (next_ident s) (selected_cards (recipe_cards s))) \<and>
   dietary (recipe_of (n, c)) =
     filter (\<lambda>t. trim t \<noteq> []) (split_comma (or_empty (data_dietary c))) \<and>
   map trim (dietary (recipe_of (n, c))) = spec_dietary (data_dietary c) \<and>
   ((\<forall>ch \<in> set (or_empty (data_dietary c)). \<not> is_white_space ch) \<longrightarrow>
      dietary (recipe_of (n, c)) = spec_dietary (data_dietary c)) \<and>
   (data_dietary c = None \<longrightarrow> dietary (recipe_of (n, c)) = [])"
  by (simp add: collectRecipeData_def Let_def recipe_of_def parse_tags_spec parse_tags_no_ws
      parse_tags_absent) (simp add: parse_tags_def)

lemma card_A_no_space: "\<forall>ch \<in> set (or_empty (data_dietary card_A)). \<not> is_white_space ch"
  by (simp add: card_A_def or_empty_def str_def is_white_space_def)

theorem C4_dietary_tokens_kept_untrimmed_witness:
  "dietary (recipe_of (3, card_A)) = spec_dietary (data_dietary card_A) \<and>
   dietary (recipe_of (3, card_A)) = [str ''vegan'', str ''halal''] \<and>
   dietary (recipe_of (3, card_A\<lparr>data_dietary := None\<rparr>)) = []"
  using C4_dietary_tokens_kept_untrimmed [of example_page 3 card_A] card_A_no_space
    C4_dietary_tokens_kept_untrimmed [of example_page 3 "card_A\<lparr>data_dietary := None\<rparr>"]
  by (simp add: card_A_def or_empty_def spec_dietary_def str_eval)

lemma page_spaced_collected:
  "map dietary (allRecipes (collectRecipeData page_spaced)) = [[str ''vegan'', str '' halal'']]"
  by (simp add: page_spaced_def example_page_def collectRecipeData_def selected_cards_def
      card_spaced_def recipe_of_def parse_tags_def or_empty_def str_eval)

lemma page_spaced_spec:
  "map (\<lambda>c. spec_dietary (data_dietary c)) (selected_cards (recipe_cards page_spaced)) =
     [[str ''vegan'', str ''halal'']]"
  by (simp add: page_spaced_def example_page_def selected_cards_def card_spaced_def
      spec_dietary_def str_eval)

text \<open>
  C4 as stated fails for an attribute with a space after a comma: the stored token keeps
  the space.
\<close>

theorem C4_counterexample:
  "map dietary (allRecipes (collectRecipeData page_spaced)) = [[str ''vegan'', str '' halal'']] \<and>
   map (\<lambda>c. spec_dietary (data_dietary c)) (selected_cards (recipe_cards page_spaced)) =
     [[str ''vegan'', str ''halal'']] \<and>
   map (\<lambda>r. set (dietary r)) (allRecipes (collectRecipeData page_spaced)) \<noteq>
   map (\<lambda>c. set (spec_dietary (data_dietary c))) (selected_cards (recipe_cards page_spaced))"
proof -
  have "str '' halal'' \<notin> set [str ''vegan'', str ''halal'']"
    by (simp add: str_def)
  then have "set [str ''vegan'', str '' halal''] \<noteq> set [str ''vegan'', str ''halal'']"
    by (metis list.set_intros(1,2))
  moreover have "map (\<lambda>r. set (dietary r)) (allRecipes (collectRecipeData page_spaced)) =
      map set (map dietary (allRecipes (collectRecipeData page_spaced)))"
    by (simp add: comp_def)
  moreover have "map (\<lambda>c. set (spec_dietary (data_dietary c))) (selected_cards (recipe_cards page_spaced)) =
      map set (map (\<lambda>c. spec_dietary (data_dietary c)) (selected_cards (recipe_cards page_spaced)))"
    by (simp add: comp_def)
  ultimately show ?thesis
    by (simp only: page_spaced_collected page_spaced_spec) simp
qed


section \<open>Properties of the include resolver\<close>

subsection \<open>Elements and paths\<close>

lemma in_concat_map: "y \<in> set ys \<Longrightarrow> x \<in> set (g y) \<Longrightarrow> x \<in> set (concat (map g ys))"
  by auto

lemma in_child_elements:
  "(i # q, e) \<in> set (concat (map (\<lambda>ip. map (\<lambda>pe. (fst ip # fst pe, snd pe)) (snd ip))
                               (enumerate 0 (map elements cs)))) \<longleftrightarrow>
   i < length cs \<and> (q, e) \<in> set (elements (cs ! i))"
proof
  assume "(i # q, e) \<in> set (concat (map (\<lambda>ip. map (\<lambda>pe. (fst ip # fst pe, snd pe)) (snd ip))
                               (enumerate 0 (map elements cs))))"
  then obtain ip where ip: "ip \<in> set (enumerate 0 (map elements cs))"
    and mem: "(i # q, e) \<in> set (map (\<lambda>pe. (fst ip # fst pe, snd pe)) (snd ip))"
    by auto
  from mem have "fst ip = i" "(q, e) \<in> set (snd ip)"
    by auto
  moreover from ip have "fst ip < length cs" "snd ip = elements (cs ! fst ip)"
    by (auto simp: in_set_enumerate_eq)
  ultimately show "i < length cs \<and> (q, e) \<in> set (elements (cs ! i))"
    by simp
next
  assume h: "i < length cs \<and> (q, e) \<in> set (elements (cs ! i))"
  then have "(i, elements (cs ! i)) \<in> set (enumerate 0 (map elements cs))"
    by (simp add: in_set_enumerate_eq)
  moreover have "(i # q, e) \<in> set (map (\<lambda>pe. (i # fst pe, snd pe)) (elements (cs ! i)))"
    using h by force
  ultimately show "(i # q, e) \<in> set (concat (map (\<lambda>ip. map (\<lambda>pe. (fst ip # fst pe, snd pe)) (snd ip))
                               (enumerate 0 (map elements cs))))"
    using in_concat_map [of "(i, elements (cs ! i))" "enumerate 0 (map elements cs)" "(i # q, e)"
        "\<lambda>ip. map (\<lambda>pe. (fst ip # fst pe, snd pe)) (snd ip)"]
    by simp
qed

lemma in_elements_iff:
  "(p, e) \<in> set (elements d) \<longleftrightarrow> subtree_at d p = Some e \<and> (\<exists>as cs. e = Element as cs)"
proof (induction d arbitrary: p e)
  case (Markup m)
  show ?case by (cases p) auto
next
  case (Element as cs)
  have IH: "\<And>i q. i < length cs \<Longrightarrow>
      (q, e) \<in> set (elements (cs ! i)) \<longleftrightarrow> subtree_at (cs ! i) q = Some e \<and> (\<exists>as cs. e = Element as cs)"
    using Element by simp
  show ?case
  proof (cases p)
    case Nil
    have "([], e) \<notin> set (concat (map (\<lambda>ip. map (\<lambda>pe. (fst ip # fst pe, snd pe)) (snd ip))
                               (enumerate 0 (map elements cs))))"
      by auto
    then show ?thesis using Nil by auto
  next
    case (Cons i q)
    have "(i # q, e) \<in> set (elements (Element as cs)) \<longleftrightarrow>
        i < length cs \<and> (q, e) \<in> set (elements (cs ! i))"
      using in_child_elements [of i q e cs] by simp
    then show ?thesis
      using Cons IH [of i q] by auto
  qed
qed

lemma set_innerHTML_other:
  "\<not> prefix r q \<Longrightarrow>
   subtree_at (set_innerHTML r h d) q =
     (if prefix q r then map_option (set_innerHTML (drop (length q) r) h) (subtree_at d q)
      else subtree_at d q)"
proof (induction r h d arbitrary: q rule: set_innerHTML.induct)
  case (1 h as cs)
  then show ?case by simp
next
  case (2 h m)
  then show ?case by simp
next
  case (3 i p h as cs)
  show ?case
  proof (cases q)
    case Nil
    then show ?thesis by simp
  next
    case (Cons j q')
    show ?thesis
    proof (cases "i < length cs")
      case True
      show ?thesis
      proof (cases "j = i")
        case True
        then have "\<not> prefix p q'" using "3.prems" Cons by simp
        then show ?thesis
          using "3.IH" [OF \<open>i < length cs\<close>, of q'] Cons True \<open>i < length cs\<close> by simp
      next
        case False
        then show ?thesis using Cons True by simp
      qed
    next
      case False
      then show ?thesis using Cons by auto
    qed
  qed
next
  case (4 i p h m)
  then show ?case by (cases q) auto
qed

subsection \<open>The fetches that are issued\<close>

lemma start_include_eq:
  "start_include st p = st\<lparr>requests := requests st @ request_of p\<rparr>"
  by (simp add: start_include_def request_of_def split: option.splits)

lemma foldl_start_include:
  "foldl start_include st ps = st\<lparr>requests := requests st @ concat (map request_of ps)\<rparr>"
  by (induction ps arbitrary: st) (simp_all add: start_include_eq)

lemma request_of_filtered:
  "concat (map request_of (filter (\<lambda>p. getAttribute (str ''data-include'') (snd p) \<noteq> None) ps)) =
   concat (map request_of ps)"
  by (induction ps) (auto simp: request_of_def)

lemma on_load_eq:
  "on_DOMContentLoaded doc =
     \<lparr>document_tree = doc, requests = concat (map request_of (elements doc)),
      error_log = [], assignments = []\<rparr>"
  by (simp only: on_DOMContentLoaded_def includeTargets_def foldl_start_include
      request_of_filtered) simp

lemma in_requests_iff:
  "(p, ip) \<in> set (requests (on_DOMContentLoaded doc)) \<longleftrightarrow>
     (\<exists>as cs. subtree_at doc p = Some (Element as cs) \<and>
        map_of as (str ''data-include'') = Some ip \<and> ip \<noteq> [])"
proof
  assume "(p, ip) \<in> set (requests (on_DOMContentLoaded doc))"
  then obtain pe where pe: "pe \<in> set (elements doc)" and mem: "(p, ip) \<in> set (request_of pe)"
    by (auto simp: on_load_eq)
  obtain q e where [simp]: "pe = (q, e)" by (cases pe)
  from pe obtain as cs where e: "subtree_at doc q = Some e" "e = Element as cs"
    by (auto simp: in_elements_iff)
  from mem e have "q = p" "map_of as (str ''data-include'') = Some ip" "ip \<noteq> []"
    by (auto simp: request_of_def split: option.splits if_splits)
  with e show "\<exists>as cs. subtree_at doc p = Some (Element as cs) \<and>
        map_of as (str ''data-include'') = Some ip \<and> ip \<noteq> []"
    by auto
next
  assume "\<exists>as cs. subtree_at doc p = Some (Element as cs) \<and>
        map_of as (str ''data-include'') = Some ip \<and> ip \<noteq> []"
  then obtain as cs where h: "subtree_at doc p = Some (Element as cs)"
      "map_of as (str ''data-include'') = Some ip" "ip \<noteq> []"
    by auto
  then have "(p, Element as cs) \<in> set (elements doc)"
    by (simp add: in_elements_iff)
  moreover have "(p, ip) \<in> set (request_of (p, Element as cs))"
    using h by (simp add: request_of_def)
  ultimately show "(p, ip) \<in> set (requests (on_DOMContentLoaded doc))"
    using in_concat_map [of "(p, Element as cs)" "elements doc" "(p, ip)" request_of]
    by (simp add: on_load_eq)
qed

lemma requests_inj: "inj_on fst (set (requests (on_DOMContentLoaded doc)))"
proof (rule inj_onI)
  fix x y
  assume x: "x \<in> set (requests (on_DOMContentLoaded doc))"
    and y: "y \<in> set (requests (on_DOMContentLoaded doc))" and eq: "fst x = fst y"
  obtain p ip where [simp]: "x = (p, ip)" by (cases x)
  obtain q iq where [simp]: "y = (q, iq)" by (cases y)
  from x y eq show "x = y"
    by (auto simp: in_requests_iff)
qed

lemma order_targets_distinct:
  assumes "distinct order" "set order \<subseteq> set (requests (on_DOMContentLoaded doc))"
  shows "distinct (map fst order)"
proof -
  have "inj_on fst (set order)"
    using requests_inj assms(2) by (rule inj_on_subset)
  with assms(1) show ?thesis
    by (simp add: distinct_map)
qed

lemma settle_document:
  "document_tree (settle c st) =
     set_innerHTML (fst (fst c)) (resolved_content (snd c)) (document_tree st)"
  by (cases "snd c")
    (simp_all add: settle_def on_catch_def assign_innerHTML_def resolved_content_def)

lemma settle_assignments:
  "assignments (settle c st) = assignments st @ [(fst (fst c), resolved_content (snd c))]"
  by (cases "snd c")
    (simp_all add: settle_def on_catch_def assign_innerHTML_def resolved_content_def)

lemma settle_log:
  "error_log (settle c st) =
     (if failed (snd c) then error_log st @ [logged_error (snd (fst c)) (snd c)]
      else error_log st)"
  by (cases "snd c")
    (simp_all add: settle_def on_catch_def assign_innerHTML_def failed_def logged_error_def)

lemma fold_settle_assignments:
  "assignments (fold (\<lambda>r st. settle (r, net r) st) order st) =
     assignments st @ map (\<lambda>r. (fst r, resolved_content (net r))) order"
  by (induction order arbitrary: st) (simp_all add: settle_assignments)

lemma fold_settle_log_grows:
  "set (error_log st) \<subseteq> set (error_log (fold (\<lambda>r st. settle (r, net r) st) order st))"
proof (induction order arbitrary: st)
  case Nil
  then show ?case by simp
next
  case (Cons r rs)
  have "set (error_log st) \<subseteq> set (error_log (settle (r, net r) st))"
    by (auto simp: settle_log)
  with Cons [of "settle (r, net r) st"] show ?case by auto
qed

lemma fold_settle_logged:
  assumes "r \<in> set order" "failed (net r)"
  shows "logged_error (snd r) (net r) \<in>
     set (error_log (fold (\<lambda>r st. settle (r, net r) st) order st))"
  using assms
proof (induction order arbitrary: st)
  case Nil
  then show ?case by simp
next
  case (Cons x xs)
  show ?case
  proof (cases "x = r")
    case True
    then have "logged_error (snd r) (net r) \<in> set (error_log (settle (x, net x) st))"
      using Cons.prems(2) by (simp add: settle_log)
    then show ?thesis
      using fold_settle_log_grows [of "settle (x, net x) st" net xs] by auto
  next
    case False
    with Cons show ?thesis by simp
  qed
qed

subsection \<open>Assignments in the tree\<close>

lemma subtree_at_append:
  "subtree_at d (r @ s) = (case subtree_at d r of None \<Rightarrow> None | Some t \<Rightarrow> subtree_at t s)"
  by (induction d r rule: subtree_at.induct) simp_all

lemma set_innerHTML_self:
  "subtree_at d r = Some (Element as cs) \<Longrightarrow>
   subtree_at (set_innerHTML r h d) r = Some (Element as [Markup h])"
  by (induction r h d rule: set_innerHTML.induct) (auto split: if_splits)

lemma set_innerHTML_invalid:
  "element_attributes (case subtree_at d r of None \<Rightarrow> Markup [] | Some t \<Rightarrow> t) = None \<Longrightarrow>
   set_innerHTML r h d = d"
  by (induction r h d rule: set_innerHTML.induct) (auto split: if_splits simp: list_update_same_conv)

lemma set_innerHTML_kind:
  "element_attributes (set_innerHTML r h d) = element_attributes d"
  by (induction r h d rule: set_innerHTML.induct) auto

lemma set_innerHTML_markup: "set_innerHTML r h (Markup m) = Markup m"
  by (cases r) simp_all

lemma set_innerHTML_spliced:
  "r \<noteq> [] \<Longrightarrow> set_innerHTML r h' (Element as [Markup h]) = Element as [Markup h]"
  by (cases r) (auto simp: set_innerHTML_markup)

lemma set_innerHTML_under:
  assumes "prefix r q"
  shows "subtree_at (set_innerHTML r h d) q =
     (case subtree_at d r of
        Some (Element as cs) \<Rightarrow> subtree_at (Element as [Markup h]) (drop (length r) q)
      | Some (Markup m) \<Rightarrow> subtree_at d q
      | None \<Rightarrow> subtree_at d q)"
proof -
  obtain s where q: "q = r @ s" using assms by (auto simp: prefix_def)
  show ?thesis
  proof (cases "subtree_at d r")
    case None
    then show ?thesis by (simp add: set_innerHTML_invalid)
  next
    case (Some t)
    show ?thesis
    proof (cases t)
      case (Markup m)
      with Some show ?thesis by (simp add: set_innerHTML_invalid)
    next
      case (Element as cs)
      with Some show ?thesis
        using set_innerHTML_self [of d r as cs h]
        by (simp add: q subtree_at_append)
    qed
  qed
qed

lemma set_innerHTML_apart:
  "\<not> prefix r q \<Longrightarrow> \<not> prefix q r \<Longrightarrow> subtree_at (set_innerHTML r h d) q = subtree_at d q"
  by (simp add: set_innerHTML_other)

lemma fold_settle_untouched:
  "\<forall>r \<in> fst ` set order. \<not> prefix r q \<and> \<not> prefix q r \<Longrightarrow>
   subtree_at (document_tree (fold (\<lambda>r st. settle (r, net r) st) order st)) q =
     subtree_at (document_tree st) q"
  by (induction order arbitrary: st) (simp_all add: settle_document set_innerHTML_apart)

lemma fold_settle_stable:
  "subtree_at (document_tree st) q = Some (Element as [Markup h]) \<Longrightarrow>
   \<forall>r \<in> fst ` set order. \<not> prefix r q \<Longrightarrow>
   subtree_at (document_tree (fold (\<lambda>r st. settle (r, net r) st) order st)) q =
     Some (Element as [Markup h])"
proof (induction order arbitrary: st)
  case Nil
  then show ?case by simp
next
  case (Cons x xs)
  have np: "\<not> prefix (fst x) q" using Cons.prems(2) by simp
  have "subtree_at (document_tree (settle (x, net x) st)) q = Some (Element as [Markup h])"
  proof (cases "prefix q (fst x)")
    case True
    then have "drop (length q) (fst x) \<noteq> []"
      using np by (auto simp: prefix_def)
    then show ?thesis
      using True np Cons.prems(1)
      by (simp add: settle_document set_innerHTML_other set_innerHTML_spliced)
  next
    case False
    then show ?thesis
      using np Cons.prems(1) by (simp add: settle_document set_innerHTML_other)
  qed
  then show ?case
    using Cons.IH [of "settle (x, net x) st"] Cons.prems(2) by simp
qed

lemma fold_settle_attached:
  assumes "distinct (map fst order)" "(q, iq) \<in> set order"
    and "\<forall>r \<in> fst ` set order. \<not> strict_prefix r q"
    and "subtree_at (document_tree st) q = Some (Element as cs)"
  shows "subtree_at (document_tree (fold (\<lambda>r st. settle (r, net r) st) order st)) q =
     Some (Element as [Markup (resolved_content (net (q, iq)))])"
  using assms
proof (induction order arbitrary: st cs)
  case Nil
  then show ?case by simp
next
  case (Cons x xs)
  show ?case
  proof (cases "fst x = q")
    case True
    then have "q \<notin> fst ` set xs"
      using Cons.prems(1) by auto
    then have "(q, iq) \<notin> set xs"
      by (metis fst_conv image_eqI)
    then have x: "x = (q, iq)"
      using Cons.prems(2) by simp
    have now: "subtree_at (document_tree (settle (x, net x) st)) q =
        Some (Element as [Markup (resolved_content (net (q, iq)))])"
      using Cons.prems(4) by (simp add: settle_document x set_innerHTML_self)
    have "\<forall>r \<in> fst ` set xs. \<not> prefix r q"
    proof
      fix r assume r: "r \<in> fst ` set xs"
      then have "r \<noteq> q" using \<open>q \<notin> fst ` set xs\<close> by auto
      moreover have "\<not> strict_prefix r q" using Cons.prems(3) r by auto
      ultimately show "\<not> prefix r q" by (simp add: strict_prefix_def)
    qed
    then show ?thesis
      using fold_settle_stable [OF now, of xs net] by simp
  next
    case False
    then have in_rest: "(q, iq) \<in> set xs"
      using Cons.prems(2) by auto
    have np: "\<not> prefix (fst x) q"
      using False Cons.prems(3) by (simp add: strict_prefix_def)
    have "element_attributes
        (case subtree_at (document_tree (settle (x, net x) st)) q of None \<Rightarrow> Markup [] | Some t \<Rightarrow> t) =
        Some as"
      using np Cons.prems(4)
      by (simp add: settle_document set_innerHTML_other set_innerHTML_kind)
    then obtain cs' where "subtree_at (document_tree (settle (x, net x) st)) q = Some (Element as cs')"
      by (auto split: option.splits elim: element_attributes.elims)
    then show ?thesis
      using Cons.IH [of "settle (x, net x) st" cs'] Cons.prems(1,3) in_rest by simp
  qed
qed

lemma set_innerHTML_under_attrs:
  assumes "prefix r q"
  shows "subtree_at (set_innerHTML r h d) q =
     (case attributes_at d r of
        Some as \<Rightarrow> subtree_at (Element as [Markup h]) (drop (length r) q)
      | None \<Rightarrow> subtree_at d q)"
proof (cases "subtree_at d r")
  case None
  then show ?thesis
    using set_innerHTML_under [OF assms, of h d] by (simp add: attributes_at_def)
next
  case (Some t)
  then show ?thesis
    using set_innerHTML_under [OF assms, of h d] by (cases t) (simp_all add: attributes_at_def)
qed

lemma attributes_at_other:
  "\<not> prefix r q \<Longrightarrow> attributes_at (set_innerHTML r h d) q = attributes_at d q"
  by (cases "subtree_at d q")
    (simp_all add: attributes_at_def set_innerHTML_other set_innerHTML_kind)

lemma step_apart:
  assumes R: "\<And>q. \<not> prefix q p \<Longrightarrow> \<not> prefix p q \<Longrightarrow> subtree_at d q = subtree_at d' q"
    and K: "\<And>q. strict_prefix q p \<Longrightarrow> attributes_at d q = attributes_at d' q"
    and hh: "r = p \<or> h = h'"
    and q: "\<not> prefix q p" "\<not> prefix p q"
  shows "subtree_at (set_innerHTML r h d) q = subtree_at (set_innerHTML r h' d') q"
proof (cases "prefix r q")
  case True
  then have npr: "\<not> prefix p r"
    using q(2) by (meson prefix_order.trans)
  then have "r \<noteq> p" by auto
  then have same: "h = h'" using hh by simp
  have "attributes_at d r = attributes_at d' r"
  proof (cases "prefix r p")
    case True
    with \<open>r \<noteq> p\<close> show ?thesis by (simp add: K strict_prefix_def)
  next
    case False
    with npr show ?thesis by (simp add: attributes_at_def R)
  qed
  then show ?thesis
    using True same R [OF q]
    by (simp add: set_innerHTML_under_attrs split: option.splits)
next
  case False
  show ?thesis
  proof (cases "prefix q r")
    case True
    then have "r \<noteq> p" using q(1) by auto
    then have "h = h'" using hh by simp
    then show ?thesis
      using False True R [OF q] by (simp add: set_innerHTML_other)
  next
    case nq: False
    then show ?thesis
      using False R [OF q] by (simp add: set_innerHTML_other)
  qed
qed

lemma step_above:
  assumes K: "\<And>q. strict_prefix q p \<Longrightarrow> attributes_at d q = attributes_at d' q"
    and hh: "r = p \<or> h = h'"
    and q: "strict_prefix q p"
  shows "attributes_at (set_innerHTML r h d) q = attributes_at (set_innerHTML r h' d') q"
proof (cases "prefix r q")
  case True
  then have rp: "strict_prefix r p"
    using q by (meson prefix_order.le_less_trans)
  then have "r \<noteq> p" by auto
  then have same: "h = h'" using hh by simp
  have eq: "attributes_at d r = attributes_at d' r"
    using rp by (rule K)
  have L: "subtree_at (set_innerHTML r h d) q =
      (case attributes_at d r of
         Some as \<Rightarrow> subtree_at (Element as [Markup h]) (drop (length r) q)
       | None \<Rightarrow> subtree_at d q)"
    using True by (rule set_innerHTML_under_attrs)
  have L': "subtree_at (set_innerHTML r h' d') q =
      (case attributes_at d' r of
         Some as \<Rightarrow> subtree_at (Element as [Markup h']) (drop (length r) q)
       | None \<Rightarrow> subtree_at d' q)"
    using True by (rule set_innerHTML_under_attrs)
  show ?thesis
  proof (cases "attributes_at d r")
    case None
    then have "subtree_at (set_innerHTML r h d) q = subtree_at d q"
      "subtree_at (set_innerHTML r h' d') q = subtree_at d' q"
      using L L' eq by simp_all
    then have "attributes_at (set_innerHTML r h d) q = attributes_at d q"
      "attributes_at (set_innerHTML r h' d') q = attributes_at d' q"
      by (simp_all add: attributes_at_def)
    then show ?thesis using K [OF q] by simp
  next
    case (Some as)
    then have "subtree_at (set_innerHTML r h d) q = subtree_at (set_innerHTML r h' d') q"
      using L L' eq same by simp
    then show ?thesis by (simp add: attributes_at_def)
  qed
next
  case False
  then show ?thesis
    using K [OF q] by (simp add: attributes_at_other)
qed

lemma fold_settle_independent:
  assumes agree: "\<forall>r. r \<noteq> (p, ip) \<longrightarrow> net' r = net r"
    and R: "\<forall>q. \<not> prefix q p \<longrightarrow> \<not> prefix p q \<longrightarrow>
              subtree_at (document_tree st) q = subtree_at (document_tree st') q"
    and K: "\<forall>q. strict_prefix q p \<longrightarrow>
              attributes_at (document_tree st) q = attributes_at (document_tree st') q"
  shows "\<forall>q. \<not> prefix q p \<longrightarrow> \<not> prefix p q \<longrightarrow>
     subtree_at (document_tree (fold (\<lambda>r st. settle (r, net r) st) order st)) q =
     subtree_at (document_tree (fold (\<lambda>r st. settle (r, net' r) st) order st')) q"
  using R K
proof (induction order arbitrary: st st')
  case Nil
  then show ?case by simp
next
  case (Cons x xs)
  have hh: "fst x = p \<or> resolved_content (net x) = resolved_content (net' x)"
  proof (cases "x = (p, ip)")
    case True
    then show ?thesis by simp
  next
    case False
    then have "net' x = net x" using agree by blast
    then show ?thesis by simp
  qed
  have R': "\<forall>q. \<not> prefix q p \<longrightarrow> \<not> prefix p q \<longrightarrow>
      subtree_at (document_tree (settle (x, net x) st)) q =
      subtree_at (document_tree (settle (x, net' x) st')) q"
    using step_apart [of p "document_tree st" "document_tree st'" "fst x"
        "resolved_content (net x)" "resolved_content (net' x)"] Cons.prems hh
    by (simp add: settle_document)
  have K': "\<forall>q. strict_prefix q p \<longrightarrow>
      attributes_at (document_tree (settle (x, net x) st)) q =
      attributes_at (document_tree (settle (x, net' x) st')) q"
    using step_above [of p "document_tree st" "document_tree st'" "fst x"
        "resolved_content (net x)" "resolved_content (net' x)"] Cons.prems(2) hh
    by (simp add: settle_document)
  show ?case
    using Cons.IH [OF R' K'] by simp
qed

subsection \<open>Runs\<close>

lemma document_on_load: "document_tree (on_DOMContentLoaded doc) = doc"
  by (simp add: on_load_eq)

lemma run_document_Nil: "document_tree (run_includes net [] doc) = doc"
  by (simp add: run_includes_def document_on_load)

lemma fold_settle_document:
  "document_tree (fold (\<lambda>r st. settle (r, net r) st) order st) =
     fold (\<lambda>r d. set_innerHTML (fst r) (resolved_content (net r)) d) order (document_tree st)"
  by (induction order arbitrary: st) (simp_all add: settle_document)

lemma run_document:
  "document_tree (run_includes net order doc) =
     fold (\<lambda>r d. set_innerHTML (fst r) (resolved_content (net r)) d) order doc"
  by (simp add: run_includes_def fold_settle_document document_on_load)

lemma example_net_values:
  "example_net (n, str ''../partials/footer.html'') = Response False (str ''Not Found'')"
  "example_net (n, str ''../partials/header.html'') = Response True header_fragment"
  by (simp_all add: example_net_def str_def)

lemma example_contents:
  "resolved_content (example_net (n, str ''../partials/footer.html'')) = fallback_marker"
  "resolved_content (example_net (n, str ''../partials/header.html'')) = header_fragment"
  "resolved_content (failing_net r) = fallback_marker"
  by (simp_all add: example_net_values failing_net_def resolved_content_def)

lemma nested_page_final:
  "document_tree (run_includes example_net example_order nested_page) =
     Element [(str ''data-root-path'', str ''..'')]
      [Element [(str ''data-include'', str ''../partials/header.html''),
                (str ''data-root-path'', str ''..'')] [Markup header_fragment],
       Element [(str ''href'', str ''index.html''),
                (str ''data-root-href'', str ''index.html'')] [Markup (str ''Home'')],
       Element [(str ''data-include'', [])] [Markup (str ''kept'')],
       Element [(str ''data-include'', str ''../partials/footer.html'')] [Markup fallback_marker]]"
  by (simp add: run_document example_order_def example_contents nested_page_def
      eval_nat_numeral)

lemma stacked_outer_first:
  "document_tree (run_includes example_net
      [([0], str ''../partials/footer.html''), ([0, 0], str ''../partials/header.html'')]
      stacked_page) =
     Element [] [Element [(str ''data-include'', str ''../partials/footer.html'')]
                   [Markup fallback_marker]]"
  by (simp add: run_document example_contents stacked_page_def)

lemma stacked_inner_only:
  "document_tree (run_includes net [([0, 0], str ''../partials/header.html'')] stacked_page) =
     Element [] [Element [(str ''data-include'', str ''../partials/footer.html'')]
       [Element [(str ''data-include'', str ''../partials/header.html'')]
          [Markup (resolved_content (net ([0, 0], str ''../partials/header.html'')))]]]"
  by (simp add: run_document stacked_page_def)

lemma wrapper_final:
  "document_tree (run_includes example_net [([0, 0], str ''../partials/header.html'')]
      wrapper_page) =
     Element [] [Element [(str ''data-include'', [])]
       [Element [(str ''data-include'', str ''../partials/header.html'')]
          [Markup header_fragment]]]"
  by (simp add: run_document wrapper_page_def example_contents)

lemma marker_is_not_header: "fallback_marker \<noteq> header_fragment"
  by (simp add: fallback_marker_def header_fragment_def str_def)

lemma failed_content: "failed out \<Longrightarrow> resolved_content out = fallback_marker"
  by (cases out) (simp_all add: failed_def resolved_content_def)

lemma run_assignments:
  "assignments (run_includes net order doc) =
     map (\<lambda>r. (fst r, resolved_content (net r))) order"
  by (simp add: run_includes_def fold_settle_assignments on_load_eq)

lemma run_attached:
  assumes "distinct order" "set order \<subseteq> set (requests (on_DOMContentLoaded doc))"
    and "(q, iq) \<in> set order"
    and "\<forall>r \<in> fst ` set order. \<not> strict_prefix r q"
  shows "\<exists>as cs. subtree_at doc q = Some (Element as cs) \<and>
     subtree_at (document_tree (run_includes net order doc)) q =
       Some (Element as [Markup (resolved_content (net (q, iq)))])"
proof -
  obtain as cs where el: "subtree_at doc q = Some (Element as cs)"
    using assms(2,3) in_requests_iff [of q iq doc] by blast
  then have "subtree_at (document_tree (on_DOMContentLoaded doc)) q = Some (Element as cs)"
    by (simp add: document_on_load)
  then have "subtree_at (document_tree (run_includes net order doc)) q =
       Some (Element as [Markup (resolved_content (net (q, iq)))])"
    unfolding run_includes_def
    by (rule fold_settle_attached [OF order_targets_distinct [OF assms(1,2)] assms(3,4)])
  with el show ?thesis by blast
qed

lemma run_untouched:
  "\<forall>r \<in> fst ` set order. \<not> prefix r q \<and> \<not> prefix q r \<Longrightarrow>
   subtree_at (document_tree (run_includes net order doc)) q = subtree_at doc q"
  using fold_settle_untouched [of order q net "on_DOMContentLoaded doc"]
  by (simp add: run_includes_def document_on_load)

lemma run_independent:
  assumes "\<forall>r. r \<noteq> (p, ip) \<longrightarrow> net' r = net r"
  shows "\<forall>q. \<not> prefix q p \<longrightarrow> \<not> prefix p q \<longrightarrow>
     subtree_at (document_tree (run_includes net order doc)) q =
     subtree_at (document_tree (run_includes net' order doc)) q"
  unfolding run_includes_def
  by (rule fold_settle_independent [OF assms]) simp_all

text \<open>
  C6, amended. Let the fetches of \<open>order\<close> end, in that order, each fetch once, and let
  the fetch of the placeholder \<open>p\<close> fail (a rejected promise or a response that is not
  ok). Then the error is in the log and the fallback marker is assigned to the placeholder.
  Every placeholder of \<open>order\<close> that does not lie inside another placeholder of
  \<open>order\<close>, the failed one included, ends in the document with the markup that its own
  outcome gives. Every node that neither lies inside a placeholder of \<open>order\<close> nor
  contains one is as it was. And replacing the outcome of the fetch of \<open>p\<close> by any other
  changes no node but \<open>p\<close>, the nodes around \<open>p\<close> and the nodes inside \<open>p\<close>.
\<close>

theorem C6_failure_is_local:
  assumes "distinct order"
    and "set order \<subseteq> set (requests (on_DOMContentLoaded doc))"
    and "(p, ip) \<in> set order"
    and "failed (net (p, ip))"
  shows "logged_error ip (net (p, ip)) \<in> set (error_log (run_includes net order doc)) \<and>
     (p, fallback_marker) \<in> set (assignments (run_includes net order doc)) \<and>
     (\<forall>(q, iq) \<in> set order. (\<forall>r \<in> fst ` set order. \<not> strict_prefix r q) \<longrightarrow>
        (\<exists>as cs. subtree_at doc q = Some (Element as cs) \<and>
           subtree_at (document_tree (run_includes net order doc)) q =
             Some (Element as [Markup (resolved_content (net (q, iq)))]))) \<and>
     (\<forall>q. (\<forall>r \<in> fst ` set order. \<not> prefix r q \<and> \<not> prefix q r) \<longrightarrow>
        subtree_at (document_tree (run_includes net order doc)) q = subtree_at doc q) \<and>
     (\<forall>net'. (\<forall>r. r \<noteq> (p, ip) \<longrightarrow> net' r = net r) \<longrightarrow>
        (\<forall>q. \<not> prefix q p \<longrightarrow> \<not> prefix p q \<longrightarrow>
           subtree_at (document_tree (run_includes net' order doc)) q =
           subtree_at (document_tree (run_includes net order doc)) q))"
proof (intro conjI)
  show "logged_error ip (net (p, ip)) \<in> set (error_log (run_includes net order doc))"
    using fold_settle_logged [of "(p, ip)" order net "on_DOMContentLoaded doc"] assms(3,4)
    by (simp add: run_includes_def)
  have "(p, resolved_content (net (p, ip))) \<in> set (assignments (run_includes net order doc))"
    using assms(3) by (force simp: run_assignments)
  then show "(p, fallback_marker) \<in> set (assignments (run_includes net order doc))"
    by (simp add: failed_content [OF assms(4)])
  show "\<forall>(q, iq) \<in> set order. (\<forall>r \<in> fst ` set order. \<not> strict_prefix r q) \<longrightarrow>
        (\<exists>as cs. subtree_at doc q = Some (Element as cs) \<and>
           subtree_at (document_tree (run_includes net order doc)) q =
             Some (Element as [Markup (resolved_content (net (q, iq)))]))"
    using run_attached [OF assms(1,2)] by blast
  show "\<forall>q. (\<forall>r \<in> fst ` set order. \<not> prefix r q \<and> \<not> prefix q r) \<longrightarrow>
        subtree_at (document_tree (run_includes net order doc)) q = subtree_at doc q"
    using run_untouched by blast
  show "\<forall>net'. (\<forall>r. r \<noteq> (p, ip) \<longrightarrow> net' r = net r) \<longrightarrow>
        (\<forall>q. \<not> prefix q p \<longrightarrow> \<not> prefix p q \<longrightarrow>
           subtree_at (document_tree (run_includes net' order doc)) q =
           subtree_at (document_tree (run_includes net order doc)) q)"
    using run_independent [of p ip _ net order doc] by metis
qed

text \<open>
  C10, amended. For an element whose \<open>data-include\<close> attribute is absent or the empty
  string, the handler issues no fetch and never assigns its \<open>innerHTML\<close>. The element
  is unchanged after the run when no placeholder of \<open>order\<close> lies inside it or around
  it. Every placeholder with a path that is not empty gets its fetch, and every fetch that
  ends resolves its placeholder, when the placeholder is not inside another one of
  \<open>order\<close>.
\<close>

theorem C10_no_fetch_for_empty_path:
  assumes "subtree_at doc p = Some (Element as cs)"
    and "getAttribute (str ''data-include'') (Element as cs) = None \<or>
         getAttribute (str ''data-include'') (Element as cs) = Some []"
    and "distinct order"
    and "set order \<subseteq> set (requests (on_DOMContentLoaded doc))"
  shows "p \<notin> fst ` set (requests (on_DOMContentLoaded doc)) \<and>
     p \<notin> fst ` set (assignments (run_includes net order doc)) \<and>
     ((\<forall>r \<in> fst ` set order. \<not> prefix r p \<and> \<not> prefix p r) \<longrightarrow>
        subtree_at (document_tree (run_includes net order doc)) p = Some (Element as cs)) \<and>
     (\<forall>q bs ds iq. subtree_at doc q = Some (Element bs ds) \<and>
        getAttribute (str ''data-include'') (Element bs ds) = Some iq \<and> iq \<noteq> [] \<longrightarrow>
        (q, iq) \<in> set (requests (on_DOMContentLoaded doc))) \<and>
     (\<forall>(q, iq) \<in> set order. (\<forall>r \<in> fst ` set order. \<not> strict_prefix r q) \<longrightarrow>
        (\<exists>bs ds. subtree_at doc q = Some (Element bs ds) \<and>
           subtree_at (document_tree (run_includes net order doc)) q =
             Some (Element bs [Markup (resolved_content (net (q, iq)))])))"
proof -
  have none: "p \<notin> fst ` set (requests (on_DOMContentLoaded doc))"
  proof
    assume "p \<in> fst ` set (requests (on_DOMContentLoaded doc))"
    then obtain ip where "(p, ip) \<in> set (requests (on_DOMContentLoaded doc))" by force
    then show False using assms(1,2) in_requests_iff [of p ip doc] by auto
  qed
  have "fst ` set (assignments (run_includes net order doc)) = fst ` set order"
    by (simp add: run_assignments image_image)
  then have unassigned: "p \<notin> fst ` set (assignments (run_includes net order doc))"
    using none assms(4) by blast
  have kept: "(\<forall>r \<in> fst ` set order. \<not> prefix r p \<and> \<not> prefix p r) \<longrightarrow>
        subtree_at (document_tree (run_includes net order doc)) p = Some (Element as cs)"
    using run_untouched [of order p net doc] assms(1) by simp
  have others: "\<forall>q bs ds iq. subtree_at doc q = Some (Element bs ds) \<and>
        getAttribute (str ''data-include'') (Element bs ds) = Some iq \<and> iq \<noteq> [] \<longrightarrow>
        (q, iq) \<in> set (requests (on_DOMContentLoaded doc))"
    by (auto simp: in_requests_iff)
  have resolved: "\<forall>(q, iq) \<in> set order. (\<forall>r \<in> fst ` set order. \<not> strict_prefix r q) \<longrightarrow>
        (\<exists>bs ds. subtree_at doc q = Some (Element bs ds) \<and>
           subtree_at (document_tree (run_includes net order doc)) q =
             Some (Element bs [Markup (resolved_content (net (q, iq)))]))"
    using run_attached [OF assms(3,4)] by blast
  show ?thesis
    using none unassigned kept others resolved by blast
qed

subsection \<open>The example pages\<close>

lemma nested_requests:
  "requests (on_DOMContentLoaded nested_page) =
     [([0], str ''../partials/header.html''), ([3], str ''../partials/footer.html'')]"
  by (simp add: on_load_eq nested_page_def request_of_def str_def eval_nat_numeral)

lemma example_order_ok:
  "distinct example_order"
  "set example_order \<subseteq> set (requests (on_DOMContentLoaded nested_page))"
  by (simp_all add: example_order_def nested_requests str_def)

lemma nested_page_parts:
  "subtree_at nested_page [0] =
     Some (Element [(str ''data-include'', str ''../partials/header.html''),
                    (str ''data-root-path'', str ''..'')] [])"
  "subtree_at nested_page [1] =
     Some (Element [(str ''href'', str ''index.html''),
                    (str ''data-root-href'', str ''index.html'')] [Markup (str ''Home'')])"
  "subtree_at nested_page [2] =
     Some (Element [(str ''data-include'', [])] [Markup (str ''kept'')])"
  "subtree_at nested_page [3] =
     Some (Element [(str ''data-include'', str ''../partials/footer.html'')] [])"
  by (simp_all add: nested_page_def eval_nat_numeral)

lemma example_order_apart:
  "\<forall>r \<in> fst ` set example_order. \<not> strict_prefix r [3]"
  "\<forall>r \<in> fst ` set example_order. \<not> strict_prefix r [0]"
  "\<forall>r \<in> fst ` set example_order. \<not> prefix r [2] \<and> \<not> prefix [2] r"
  "\<forall>r \<in> fst ` set example_order. \<not> prefix r [1] \<and> \<not> prefix [1] r"
  by (simp_all add: example_order_def strict_prefix_def)

theorem C6_failure_is_local_witness:
  "failed (example_net ([3], str ''../partials/footer.html'')) \<and>
   Error (str ''Failed to load include: ../partials/footer.html'') \<in>
     set (error_log (run_includes example_net example_order nested_page)) \<and>
   ([3], fallback_marker) \<in>
     set (assignments (run_includes example_net example_order nested_page)) \<and>
   subtree_at (document_tree (run_includes example_net example_order nested_page)) [3] =
     Some (Element [(str ''data-include'', str ''../partials/footer.html'')]
             [Markup fallback_marker]) \<and>
   subtree_at (document_tree (run_includes example_net example_order nested_page)) [0] =
     Some (Element [(str ''data-include'', str ''../partials/header.html''),
                    (str ''data-root-path'', str ''..'')] [Markup header_fragment]) \<and>
   subtree_at (document_tree (run_includes example_net example_order nested_page)) [1] =
     subtree_at nested_page [1]"
proof -
  have mem: "([3], str ''../partials/footer.html'') \<in> set example_order"
    "([0], str ''../partials/header.html'') \<in> set example_order"
    by (simp_all add: example_order_def)
  have bad: "failed (example_net ([3], str ''../partials/footer.html''))"
    by (simp add: example_net_values failed_def)
  have msg: "logged_error (str ''../partials/footer.html'')
      (example_net ([3], str ''../partials/footer.html'')) =
      Error (str ''Failed to load include: ../partials/footer.html'')"
    by (simp only: example_net_values logged_error_def fetch_outcome.case) (simp add: str_def)
  note c6 = C6_failure_is_local [where net = example_net, OF example_order_ok mem(1) bad]
  have a: "Error (str ''Failed to load include: ../partials/footer.html'') \<in>
      set (error_log (run_includes example_net example_order nested_page))"
    using c6 [THEN conjunct1] by (simp only: msg)
  have b: "([3], fallback_marker) \<in>
      set (assignments (run_includes example_net example_order nested_page))"
    using c6 [THEN conjunct2, THEN conjunct1] .
  note each = c6 [THEN conjunct2, THEN conjunct2, THEN conjunct1]
  have c: "subtree_at (document_tree (run_includes example_net example_order nested_page)) [3] =
      Some (Element [(str ''data-include'', str ''../partials/footer.html'')]
             [Markup fallback_marker])"
    using each [THEN bspec, OF mem(1)] example_order_apart(1)
    by (simp add: nested_page_parts example_contents)
  have d: "subtree_at (document_tree (run_includes example_net example_order nested_page)) [0] =
      Some (Element [(str ''data-include'', str ''../partials/header.html''),
                    (str ''data-root-path'', str ''..'')] [Markup header_fragment])"
    using each [THEN bspec, OF mem(2)] example_order_apart(2)
    by (simp add: nested_page_parts example_contents)
  have e: "subtree_at (document_tree (run_includes example_net example_order nested_page)) [1] =
      subtree_at nested_page [1]"
    using c6 [THEN conjunct2, THEN conjunct2, THEN conjunct2, THEN conjunct1, THEN spec, of "[1]"]
      example_order_apart(4) by simp
  show ?thesis
    using bad a b c d e by simp
qed

text \<open>
  C6 as stated fails where one placeholder lies inside another. When the footer placeholder
  around a header placeholder fails, the marker replaces all its content: the header
  placeholder leaves the document and its fragment, fetched with success, is not shown.
  And when only the fetch of the inner placeholder ends, the content of the outer
  placeholder is different after a failure and after a success of the inner fetch.
\<close>

theorem C6_counterexample:
  "failed (example_net ([0], str ''../partials/footer.html'')) \<and>
   example_net ([0, 0], str ''../partials/header.html'') = Response True header_fragment \<and>
   document_tree (run_includes example_net
      [([0], str ''../partials/footer.html''), ([0, 0], str ''../partials/header.html'')]
      stacked_page) =
     Element [] [Element [(str ''data-include'', str ''../partials/footer.html'')]
                   [Markup fallback_marker]] \<and>
   failed (failing_net ([0, 0], str ''../partials/header.html'')) \<and>
   subtree_at (document_tree (run_includes failing_net
      [([0, 0], str ''../partials/header.html'')] stacked_page)) [0] \<noteq>
   subtree_at (document_tree (run_includes example_net
      [([0, 0], str ''../partials/header.html'')] stacked_page)) [0]"
proof -
  have f1: "failed (example_net ([0], str ''../partials/footer.html''))"
    by (simp add: example_net_values failed_def)
  have f2: "failed (failing_net ([0, 0], str ''../partials/header.html''))"
    by (simp add: failing_net_def failed_def)
  have differ: "subtree_at (document_tree (run_includes failing_net
      [([0, 0], str ''../partials/header.html'')] stacked_page)) [0] \<noteq>
   subtree_at (document_tree (run_includes example_net
      [([0, 0], str ''../partials/header.html'')] stacked_page)) [0]"
    by (simp add: stacked_inner_only example_contents marker_is_not_header)
  show ?thesis
    using f1 f2 differ example_net_values(2) [of "[0, 0]"] stacked_outer_first by blast
qed

theorem C10_no_fetch_for_empty_path_witness:
  "getAttribute (str ''data-include'') (Element [(str ''data-include'', [])] [Markup (str ''kept'')]) =
     Some [] \<and>
   [2] \<notin> fst ` set (requests (on_DOMContentLoaded nested_page)) \<and>
   [2] \<notin> fst ` set (assignments (run_includes example_net example_order nested_page)) \<and>
   subtree_at (document_tree (run_includes example_net example_order nested_page)) [2] =
     Some (Element [(str ''data-include'', [])] [Markup (str ''kept'')]) \<and>
   ([0], str ''../partials/header.html'') \<in> set (requests (on_DOMContentLoaded nested_page)) \<and>
   ([3], str ''../partials/footer.html'') \<in> set (requests (on_DOMContentLoaded nested_page))"
proof -
  have empty: "getAttribute (str ''data-include'')
      (Element [(str ''data-include'', [])] [Markup (str ''kept'')]) = Some []"
    by simp
  then have h: "getAttribute (str ''data-include'')
      (Element [(str ''data-include'', [])] [Markup (str ''kept'')]) = None \<or>
      getAttribute (str ''data-include'')
      (Element [(str ''data-include'', [])] [Markup (str ''kept'')]) = Some []"
    by simp
  note c10 = C10_no_fetch_for_empty_path [where net = example_net,
      OF nested_page_parts(3) h example_order_ok]
  have a: "[2] \<notin> fst ` set (requests (on_DOMContentLoaded nested_page))"
    using c10 [THEN conjunct1] .
  have b: "[2] \<notin> fst ` set (assignments (run_includes example_net example_order nested_page))"
    using c10 [THEN conjunct2, THEN conjunct1] .
  have c: "subtree_at (document_tree (run_includes example_net example_order nested_page)) [2] =
      Some (Element [(str ''data-include'', [])] [Markup (str ''kept'')])"
    using c10 [THEN conjunct2, THEN conjunct2, THEN conjunct1] example_order_apart(3) by simp
  show ?thesis
    using empty a b c by (simp add: nested_requests)
qed

text \<open>
  C10 as stated fails for a placeholder with an empty path around a placeholder with a
  path: no fetch is issued for the outer one, but its content changes when the inner one is
  resolved.
\<close>

theorem C10_counterexample:
  "getAttribute (str ''data-include'')
     (case subtree_at wrapper_page [0] of None \<Rightarrow> Markup [] | Some e \<Rightarrow> e) = Some [] \<and>
   requests (on_DOMContentLoaded wrapper_page) = [([0, 0], str ''../partials/header.html'')] \<and>
   subtree_at (document_tree (run_includes example_net
      [([0, 0], str ''../partials/header.html'')] wrapper_page)) [0] =
     Some (Element [(str ''data-include'', [])]
       [Element [(str ''data-include'', str ''../partials/header.html'')]
          [Markup header_fragment]]) \<and>
   subtree_at wrapper_page [0] =
     Some (Element [(str ''data-include'', [])]
       [Element [(str ''data-include'', str ''../partials/header.html'')] []]) \<and>
   subtree_at (document_tree (run_includes example_net
      [([0, 0], str ''../partials/header.html'')] wrapper_page)) [0] \<noteq>
   subtree_at wrapper_page [0]"
  by (simp add: wrapper_final) (simp add: wrapper_page_def on_load_eq request_of_def str_def)

text \<open>
  C2 on a page one level below the root (\<open>data-root-path\<close> is \<open>..\<close>): after the header
  fragment is spliced in, the link of the page that is annotated with
  \<open>data-root-href\<close> still has the \<open>href\<close> it had, the spliced markup is the fetched
  text as it came, and no attribute of any element has changed. The handler has no step
  that rewrites an attribute.
\<close>

theorem C2_no_path_rewriting:
  "getAttribute (str ''data-root-path'') nested_page = Some (str ''..'') \<and>
   attribute_at nested_page [1] (str ''data-root-href'') = Some (str ''index.html'') \<and>
   attribute_at (document_tree (run_includes example_net example_order nested_page)) [1]
     (str ''href'') = Some (str ''index.html'') \<and>
   subtree_at (document_tree (run_includes example_net example_order nested_page)) [0] =
     Some (Element [(str ''data-include'', str ''../partials/header.html''),
                    (str ''data-root-path'', str ''..'')]
             [Markup (str ''<a href=index.html data-root-href=index.html>Home</a>'')]) \<and>
   all_attributes (document_tree (run_includes example_net example_order nested_page)) =
     all_attributes nested_page"
  by (simp add: nested_page_final attribute_at_def nested_page_parts)
    (simp add: nested_page_def header_fragment_def str_def eval_nat_numeral)

end
